theory Spec2Isabelle
  imports Complex_Main "HOL-Library.AList" "HOL-Library.Sublist"
begin

section \<open>Conversation data: parts and turns\<close>

text \<open>
  A \<open>Part\<close> of the client library is an object whose keys are all optional. The keys the
  sessions and adapters look at are \<open>text\<close> (here \<open>text'\<close>), \<open>inlineData\<close> and
  \<open>fileData\<close>; a key that is absent is \<open>None\<close>. The other keys a part may have (a function
  call, a function response and so on) are kept by their names only, so the empty object
  \<open>{}\<close> is the part with the three fields \<open>None\<close> and no other key. A turn (\<open>Content\<close>)
  has an optional role and an optional list of parts.
\<close>

record InlineData =
  mimeType :: string
  data :: string

record Part =
  text' :: "string option"
  inlineData :: "InlineData option"
  fileData :: "string option"
  otherKeys :: "string list"

record Content =
  role :: "string option"
  parts :: "Part list option"

definition textPart :: "string \<Rightarrow> Part" where
  "textPart s = \<lparr>text' = Some s, inlineData = None, fileData = None, otherKeys = []\<rparr>"

definition emptyPart :: Part where
  "emptyPart = \<lparr>text' = None, inlineData = None, fileData = None, otherKeys = []\<rparr>"

definition userTurn :: "Part list \<Rightarrow> Content" where
  "userTurn ps = \<lparr>role = Some ''user'', parts = Some ps\<rparr>"

definition modelTurn :: "Part list \<Rightarrow> Content" where
  "modelTurn ps = \<lparr>role = Some ''model'', parts = Some ps\<rparr>"

section \<open>BaseProviderSession: trimming the history to a token limit\<close>

text \<open>
  \<open>trimHistoryToTokenLimit\<close> asks the client for the token count of the history
  (\<open>getHistoryTokenCount\<close>, that is \<open>client.countTokens(history).totalTokens\<close>), which may
  throw. The client's counter is the parameter \<open>countTokens\<close>; the result is the error that
  escaped, if any, and the history the session is left with.
  \<open>history[0]?.role\<close> and \<open>history[1]?.role\<close> are read only while the history has more
  than two turns. Token counts and the limit are integers.
\<close>

function trimLoop ::
  "(Content list \<Rightarrow> 'e + int) \<Rightarrow> int \<Rightarrow> Content list \<Rightarrow> 'e option \<times> Content list" where
  "trimLoop countTokens maxTokens history =
     (if length history > 2 then
        (case countTokens history of
           Inl e \<Rightarrow> (Some e, history)
         | Inr n \<Rightarrow>
             if n > maxTokens then
               trimLoop countTokens maxTokens
                 (if role (history ! 0) = Some ''user'' \<and> role (history ! 1) = Some ''model''
                  then drop 2 history else drop 1 history)
             else (None, history))
      else (None, history))"
  by pat_completeness auto
termination
  by (relation "measure (\<lambda>(c, m, h). length h)") auto

definition trimHistoryToTokenLimit ::
  "(Content list \<Rightarrow> 'e + int) \<Rightarrow> int \<Rightarrow> Content list \<Rightarrow> 'e option \<times> Content list" where
  "trimHistoryToTokenLimit countTokens maxTokens history =
     (case countTokens history of
        Inl e \<Rightarrow> (Some e, history)
      | Inr currentTokens \<Rightarrow>
          if currentTokens \<le> maxTokens then (None, history)
          else trimLoop countTokens maxTokens history)"

section \<open>BaseChatSession: the common history methods\<close>

text \<open>
  The abstract base class of the provider chat sessions keeps the history in a field and
  implements \<open>getHistory\<close>, \<open>setHistory\<close>, \<open>clearHistory\<close> and \<open>addHistory\<close> for
  its subclasses. The functions below act on the value of that field; \<open>structuredClone\<close>
  is the identity on values.
\<close>

definition getHistory :: "bool \<Rightarrow> Content list \<Rightarrow> Content list" where
  "getHistory curated history = history"

definition setHistory :: "Content list \<Rightarrow> Content list \<Rightarrow> Content list" where
  "setHistory newHistory history = newHistory"

definition clearHistory :: "Content list \<Rightarrow> Content list" where
  "clearHistory history = []"

definition addHistory :: "Content \<Rightarrow> Content list \<Rightarrow> Content list" where
  "addHistory c history = history @ [c]"

section \<open>BaseProviderSession: curated history\<close>

text \<open>
  \<open>isValidContent\<close> rejects a turn without parts, and walks the parts, rejecting at the
  first part that is the empty object or has the text \<open>''\<close>.
\<close>

fun partsValid :: "Part list \<Rightarrow> bool" where
  "partsValid [] = True"
| "partsValid (p # ps) =
     (if p = emptyPart then False
      else if text' p = Some [] then False
      else partsValid ps)"

definition isValidContent :: "Content \<Rightarrow> bool" where
  "isValidContent c =
     (case parts c of
        None \<Rightarrow> False
      | Some ps \<Rightarrow> if ps = [] then False else partsValid ps)"

definition getCuratedHistory :: "Content list \<Rightarrow> Content list" where
  "getCuratedHistory history = filter isValidContent history"

section \<open>Unified responses and finite streams\<close>

datatype AIProvider = GEMINI | CLAUDE | OLLAMA

record UsageMetadata =
  promptTokenCount :: "int option"
  candidatesTokenCount :: "int option"
  totalTokenCount :: "int option"

text \<open>
  The \<open>id\<close> of a response is built from the clock and a random number and plays no role
  below; it is left out. A \<open>content\<close> that is absent behaves as the empty list everywhere
  it is read (\<open>response.content && response.content.length > 0\<close>).
\<close>

record UnifiedResponse =
  responseProvider :: AIProvider
  responseModel :: string
  content :: "Content list"
  usageMetadata :: "UsageMetadata option"
  finishReason :: "string option"

text \<open>
  An asynchronous generator that ends is the list of the items it yields, followed by
  normal completion (\<open>None\<close>) or by the error it throws (\<open>Some e\<close>).
\<close>

type_synonym ('a, 'e) finite_stream = "'a list \<times> 'e option"

section \<open>BaseProviderSession: streaming with history update\<close>

text \<open>
  The local state of \<open>wrapStreamWithHistoryUpdate\<close>: the session's history (the field
  \<open>this.history\<close>, here \<open>sessionHistory\<close>), the model contents collected so far and the
  flag \<open>hasAddedUserContent\<close>. The caller reads the wrapped stream to its end.
\<close>

record WrapState =
  sessionHistory :: "Content list"
  modelContents :: "Content list"
  hasAddedUserContent :: bool

definition wrapStep :: "Content \<Rightarrow> WrapState \<Rightarrow> UnifiedResponse \<Rightarrow> WrapState" where
  "wrapStep userContent st response =
     (let st1 = (if \<not> hasAddedUserContent st
                 then st\<lparr>sessionHistory := sessionHistory st @ [userContent],
                         hasAddedUserContent := True\<rparr>
                 else st)
      in if content response \<noteq> []
         then st1\<lparr>modelContents := modelContents st1 @ content response\<rparr>
         else st1)"

text \<open>
  One round of the \<open>for await\<close> loop per response; each yielded response is recorded with
  the session history as it stands at the moment of the \<open>yield\<close>.
\<close>

fun wrapLoop ::
  "Content \<Rightarrow> WrapState \<Rightarrow> UnifiedResponse list
   \<Rightarrow> (UnifiedResponse \<times> Content list) list \<times> WrapState" where
  "wrapLoop userContent st [] = ([], st)"
| "wrapLoop userContent st (r # rs) =
     (let st' = wrapStep userContent st r;
          rest = wrapLoop userContent st' rs
      in ((r, sessionHistory st') # fst rest, snd rest))"

record 'e WrapResult =
  yielded :: "(UnifiedResponse \<times> Content list) list"
  thrown :: "'e option"
  finalHistory :: "Content list"

definition wrapStreamWithHistoryUpdate ::
  "Content list \<Rightarrow> Content \<Rightarrow> (UnifiedResponse, 'e) finite_stream \<Rightarrow> 'e WrapResult" where
  "wrapStreamWithHistoryUpdate history userContent responseStream =
     (let run = wrapLoop userContent
                  \<lparr>sessionHistory = history, modelContents = [], hasAddedUserContent = False\<rparr>
                  (fst responseStream);
          st = snd run
      in case snd responseStream of
           None \<Rightarrow>
             \<lparr>yielded = fst run, thrown = None,
              finalHistory = (if modelContents st \<noteq> []
                              then sessionHistory st @ modelContents st
                              else sessionHistory st)\<rparr>
         | Some e \<Rightarrow>
             \<lparr>yielded = fst run, thrown = Some e,
              finalHistory = (if \<not> hasAddedUserContent st
                              then sessionHistory st @ [userContent]
                              else sessionHistory st)\<rparr>)"

section \<open>ClaudeProviderClient: converting the event stream\<close>

text \<open>
  \<open>String.split\<close> on a one-character separator: the pieces between the separators, one
  more than there are separators.
\<close>

fun split :: "char \<Rightarrow> string \<Rightarrow> string list" where
  "split sep [] = [[]]"
| "split sep (c # cs) =
     (if c = sep then [] # split sep cs
      else (case split sep cs of
              [] \<Rightarrow> [[c]]
            | l # ls \<Rightarrow> (c # l) # ls))"

record ClaudeUsage =
  input_tokens :: int
  output_tokens :: int

text \<open>
  What the adapter reads of a parsed stream chunk: its \<open>type\<close>, \<open>delta?.text\<close>, \<open>message\<close>
  and \<open>usage\<close>. \<open>JSON.parse\<close> is the parameter \<open>parse\<close>: \<open>None\<close> where it throws (or
  returns a value whose \<open>type\<close> cannot be read), which the \<open>catch\<close> turns into skipping
  the line. The message of a \<open>message_start\<close> chunk is kept as a value of an arbitrary type
  \<open>'m\<close>; \<open>currentMessage\<close> is an object from the start, so the test \<open>data.usage &&
  currentMessage\<close> of a \<open>message_stop\<close> chunk is the test of \<open>data.usage\<close>.
\<close>

record 'm ClaudeStreamChunk =
  chunkType :: string
  deltaText :: "string option"
  chunkMessage :: "'m option"
  chunkUsage :: "ClaudeUsage option"

record 'm ClaudeStreamState =
  currentMessage :: "'m option"
  currentText :: string

definition incrementalResponse :: "string \<Rightarrow> string \<Rightarrow> UnifiedResponse" where
  "incrementalResponse mdl txt =
     \<lparr>responseProvider = CLAUDE, responseModel = mdl,
      content = [modelTurn [textPart txt]],
      usageMetadata = None, finishReason = None\<rparr>"

definition finalResponse :: "string \<Rightarrow> string \<Rightarrow> ClaudeUsage \<Rightarrow> UnifiedResponse" where
  "finalResponse mdl txt u =
     \<lparr>responseProvider = CLAUDE, responseModel = mdl,
      content = [modelTurn [textPart txt]],
      usageMetadata = Some \<lparr>promptTokenCount = Some (input_tokens u),
                             candidatesTokenCount = Some (output_tokens u),
                             totalTokenCount = Some (input_tokens u + output_tokens u)\<rparr>,
      finishReason = None\<rparr>"

definition claudeLine ::
  "(string \<Rightarrow> 'm ClaudeStreamChunk option) \<Rightarrow> string \<Rightarrow> 'm ClaudeStreamState \<Rightarrow> string
   \<Rightarrow> 'm ClaudeStreamState \<times> UnifiedResponse list" where
  "claudeLine parse mdl st line =
     (if prefix ''data: '' line then
        (case parse (drop 6 line) of
           None \<Rightarrow> (st, [])
         | Some d \<Rightarrow>
             if chunkType d = ''message_start'' then
               (st\<lparr>currentMessage := chunkMessage d\<rparr>, [])
             else if chunkType d = ''content_block_delta'' then
               (case deltaText d of
                  None \<Rightarrow> (st, [])
                | Some t \<Rightarrow>
                    if t = [] then (st, [])
                    else (st\<lparr>currentText := currentText st @ t\<rparr>,
                          [incrementalResponse mdl (currentText st @ t)]))
             else if chunkType d = ''message_stop'' then
               (case chunkUsage d of
                  None \<Rightarrow> (st, [])
                | Some u \<Rightarrow> (st, [finalResponse mdl (currentText st) u]))
             else (st, []))
      else (st, []))"

fun claudeLines ::
  "(string \<Rightarrow> 'm ClaudeStreamChunk option) \<Rightarrow> string \<Rightarrow> 'm ClaudeStreamState \<Rightarrow> string list
   \<Rightarrow> 'm ClaudeStreamState \<times> UnifiedResponse list" where
  "claudeLines parse mdl st [] = (st, [])"
| "claudeLines parse mdl st (line # lines) =
     (let r = claudeLine parse mdl st line;
          rest = claudeLines parse mdl (fst r) lines
      in (fst rest, snd r @ snd rest))"

text \<open>
  One round of the read loop per chunk of the body: the chunk is decoded, split at the
  newlines, and every piece is handled as a line.
\<close>

fun claudeReads ::
  "(string \<Rightarrow> 'm ClaudeStreamChunk option) \<Rightarrow> string \<Rightarrow> 'm ClaudeStreamState \<Rightarrow> string list
   \<Rightarrow> UnifiedResponse list" where
  "claudeReads parse mdl st [] = []"
| "claudeReads parse mdl st (chunk # chunks) =
     (let r = claudeLines parse mdl st (split CHR ''\<newline>'' chunk)
      in snd r @ claudeReads parse mdl (fst r) chunks)"

definition convertStreamToUnified ::
  "(string \<Rightarrow> 'm ClaudeStreamChunk option) \<Rightarrow> string \<Rightarrow> (string, 'e) finite_stream
   \<Rightarrow> (UnifiedResponse, 'e) finite_stream" where
  "convertStreamToUnified parse mdl stream =
     (claudeReads parse mdl \<lparr>currentMessage = None, currentText = []\<rparr> (fst stream),
      snd stream)"

section \<open>Provider errors\<close>

text \<open>
  \<open>ProviderError\<close> carries a message, the provider, an optional code and an optional HTTP
  status. Its subclasses fix the code and the status in their constructors and are
  \<open>instanceof ProviderError\<close>; they are values of the same constructor here. Every other
  thrown value is an \<open>OtherError\<close> with its message.
\<close>

datatype js_error =
    ProviderError string AIProvider "string option" "int option"
  | OtherError string

definition AuthenticationError :: "string \<Rightarrow> AIProvider \<Rightarrow> js_error" where
  "AuthenticationError message p = ProviderError message p (Some ''AUTHENTICATION_ERROR'') (Some 401)"

definition RateLimitError :: "string \<Rightarrow> AIProvider \<Rightarrow> js_error" where
  "RateLimitError message p = ProviderError message p (Some ''RATE_LIMIT_ERROR'') (Some 429)"

definition ModelNotFoundError :: "string \<Rightarrow> AIProvider \<Rightarrow> js_error" where
  "ModelNotFoundError message p = ProviderError message p (Some ''MODEL_NOT_FOUND'') (Some 404)"

text \<open>\<open>String.includes\<close> (here \<open>includesStr\<close>): the second string occurs in the first.\<close>

fun includesStr :: "string \<Rightarrow> string \<Rightarrow> bool" where
  "includesStr [] sub = (sub = [])"
| "includesStr (c # cs) sub = (prefix sub (c # cs) \<or> includesStr cs sub)"

section \<open>BaseProviderClient: error classification and retry\<close>

definition handleError :: "AIProvider \<Rightarrow> js_error \<Rightarrow> js_error" where
  "handleError thisProvider error =
     (case error of
        ProviderError m p c s \<Rightarrow> ProviderError m p c s
      | OtherError m \<Rightarrow>
          (let message = (if m = [] then ''Unknown error'' else m)
           in if includesStr message ''401'' \<or> includesStr message ''unauthorized''
              then ProviderError message thisProvider (Some ''AUTHENTICATION_ERROR'') (Some 401)
              else if includesStr message ''429'' \<or> includesStr message ''rate limit''
              then ProviderError message thisProvider (Some ''RATE_LIMIT_ERROR'') (Some 429)
              else if includesStr message ''404'' \<or> includesStr message ''not found''
              then ProviderError message thisProvider (Some ''NOT_FOUND_ERROR'') (Some 404)
              else if includesStr message ''403'' \<or> includesStr message ''forbidden''
              then ProviderError message thisProvider (Some ''FORBIDDEN_ERROR'') (Some 403)
              else ProviderError message thisProvider (Some ''UNKNOWN_ERROR'') (Some 500)))"

text \<open>The test under "Don't retry certain errors".\<close>

definition notRetried :: "js_error \<Rightarrow> bool" where
  "notRetried error =
     (case error of
        ProviderError m p c s \<Rightarrow> s = Some 401 \<or> s = Some 403 \<or> s = Some 404
      | OtherError m \<Rightarrow> False)"

text \<open>
  \<open>retryWithBackoff\<close>. The operation is given by the outcome of each of its calls, numbered
  from 0 (the loop calls it once per attempt), and \<open>Math.random()\<close> by the value it returns
  in each attempt. The result records the outcome, how often the operation was called and
  the time slept before each retry, in milliseconds. Delays are real numbers; the rounding
  of floating-point arithmetic is not modelled. \<open>maxRetries\<close> is a natural number.
\<close>

record 'a RetryResult =
  outcome :: "js_error + 'a"
  calls :: nat
  slept :: "real list"

function retryLoop ::
  "AIProvider \<Rightarrow> (nat \<Rightarrow> js_error + 'a) \<Rightarrow> (nat \<Rightarrow> real) \<Rightarrow> nat \<Rightarrow> real
   \<Rightarrow> nat \<Rightarrow> js_error option \<Rightarrow> real list \<Rightarrow> 'a RetryResult" where
  "retryLoop thisProvider operation random maxRetries baseDelayMs attempt lastError delays =
     (if attempt \<le> maxRetries then
        (case operation attempt of
           Inr v \<Rightarrow> \<lparr>outcome = Inr v, calls = attempt + 1, slept = delays\<rparr>
         | Inl error \<Rightarrow>
             if attempt = maxRetries then
               \<lparr>outcome = Inl (handleError thisProvider error), calls = attempt + 1,
                slept = delays\<rparr>
             else if notRetried error then
               \<lparr>outcome = Inl (handleError thisProvider error), calls = attempt + 1,
                slept = delays\<rparr>
             else
               (let delay = baseDelayMs * 2 ^ attempt;
                    jitter = random attempt * 0.1 * delay
                in retryLoop thisProvider operation random maxRetries baseDelayMs
                     (attempt + 1) (Some error) (delays @ [delay + jitter])))
      else
        \<lparr>outcome = Inl (case lastError of
                          Some error \<Rightarrow> handleError thisProvider error
                        | None \<Rightarrow> OtherError ''Cannot read properties of undefined''),
         calls = attempt, slept = delays\<rparr>)"
  by pat_completeness auto
termination
  by (relation "measure (\<lambda>(p, operation, random, maxRetries, b, attempt, e, d).
                  Suc maxRetries - attempt)") auto

text \<open>The parameters default to 3 retries and a base delay of 1000 ms.\<close>

definition retryWithBackoff ::
  "AIProvider \<Rightarrow> (nat \<Rightarrow> js_error + 'a) \<Rightarrow> (nat \<Rightarrow> real) \<Rightarrow> nat option \<Rightarrow> real option
   \<Rightarrow> 'a RetryResult" where
  "retryWithBackoff thisProvider operation random maxRetries baseDelayMs =
     retryLoop thisProvider operation random
       (case maxRetries of None \<Rightarrow> 3 | Some n \<Rightarrow> n)
       (case baseDelayMs of None \<Rightarrow> 1000 | Some b \<Rightarrow> b)
       0 None []"

text \<open>The time slept before retry number \<open>k + 1\<close>: the delay plus the jitter.\<close>

definition sleepFor :: "(nat \<Rightarrow> real) \<Rightarrow> real \<Rightarrow> nat \<Rightarrow> real" where
  "sleepFor random baseDelayMs k = baseDelayMs * 2 ^ k + random k * 0.1 * (baseDelayMs * 2 ^ k)"

section \<open>ProviderToolRegistry\<close>

record ProviderCapabilities =
  supportsStreaming :: bool
  supportsTools :: bool
  supportsImages :: bool
  supportsSystemPrompts :: bool
  maxContextLength :: int
  supportedModels :: "string list"

text \<open>
  \<open>keyof ProviderCapabilities\<close>, and the truthiness of \<open>capabilities[key]\<close>: the flag itself
  for the four boolean keys, being non-zero for the context length, and always true for
  the list of models (an array is truthy).
\<close>

datatype CapabilityKey =
    Key_supportsStreaming | Key_supportsTools | Key_supportsImages
  | Key_supportsSystemPrompts | Key_maxContextLength | Key_supportedModels

fun capability :: "ProviderCapabilities \<Rightarrow> CapabilityKey \<Rightarrow> bool" where
  "capability caps Key_supportsStreaming = supportsStreaming caps"
| "capability caps Key_supportsTools = supportsTools caps"
| "capability caps Key_supportsImages = supportsImages caps"
| "capability caps Key_supportsSystemPrompts = supportsSystemPrompts caps"
| "capability caps Key_maxContextLength = (maxContextLength caps \<noteq> 0)"
| "capability caps Key_supportedModels = True"

text \<open>
  A tool is a list of function declarations, each with a name, a description and a
  parameter object; all three and the list itself are optional. The parameter object is
  its list of entries, with values of an arbitrary type \<open>'j\<close>.
\<close>

record 'j FunctionDeclaration =
  name :: "string option"
  description :: "string option"
  parameters :: "(string \<times> 'j) list option"

record 'j Tool =
  function_declarations :: "'j FunctionDeclaration list option"

text \<open>The provider-specific configuration of a tool, as far as it is read.\<close>

record 'j ProviderSpecific =
  newParameters :: "(string \<times> 'j) list option"
  newDescription :: "string option"

record 'j ProviderToolConfig =
  toolName :: string
  supportedProviders :: "AIProvider list"
  requiresCapability :: "CapabilityKey option"
  providerSpecificConfig :: "(AIProvider \<Rightarrow> 'j ProviderSpecific option) option"

text \<open>
  The two maps of the registry are association lists in insertion order: \<open>Map.set\<close> on a
  key that is present replaces its value in place, on a new key appends an entry.
\<close>

record 'j ProviderToolRegistry =
  toolConfigs :: "(string \<times> 'j ProviderToolConfig) list"
  globalTools :: "(string \<times> 'j Tool) list"

definition emptyRegistry :: "'j ProviderToolRegistry" where
  "emptyRegistry = \<lparr>toolConfigs = [], globalTools = []\<rparr>"

definition getToolName :: "'j Tool \<Rightarrow> string" where
  "getToolName tool =
     (case function_declarations tool of
        None \<Rightarrow> ''unknown_tool''
      | Some [] \<Rightarrow> ''unknown_tool''
      | Some (d # ds) \<Rightarrow>
          (case name d of
             None \<Rightarrow> ''unknown_tool''
           | Some n \<Rightarrow> if n = [] then ''unknown_tool'' else n))"

text \<open>
  \<open>registerTool(tool, config)\<close>; the configuration comes without its \<open>toolName\<close>, which
  is set to the name of the tool.
\<close>

definition registerTool ::
  "'j Tool \<Rightarrow> 'j ProviderToolConfig \<Rightarrow> 'j ProviderToolRegistry \<Rightarrow> 'j ProviderToolRegistry" where
  "registerTool tool config reg =
     (let n = getToolName tool
      in \<lparr>toolConfigs = AList.update n (config\<lparr>toolName := n\<rparr>) (toolConfigs reg),
          globalTools = AList.update n tool (globalTools reg)\<rparr>)"

text \<open>The object spread \<open>{...a, ...b}\<close> on lists of entries.\<close>

definition spread :: "(string \<times> 'j) list \<Rightarrow> (string \<times> 'j) list \<Rightarrow> (string \<times> 'j) list" where
  "spread a b = fold (\<lambda>(k, v). AList.update k v) b a"

text \<open>
  \<open>applyProviderConfig\<close> writes to \<open>function_declarations[0]\<close> of a copy of the tool, which
  throws a \<open>TypeError\<close> when the tool has no first declaration.
\<close>

definition setParameters ::
  "(string \<times> 'j) list \<Rightarrow> 'j Tool \<Rightarrow> js_error + 'j Tool" where
  "setParameters ps tool =
     (case function_declarations tool of
        Some (d # ds) \<Rightarrow>
          Inr (tool\<lparr>function_declarations :=
                 Some (d\<lparr>parameters :=
                          Some (spread (case parameters d of None \<Rightarrow> [] | Some old \<Rightarrow> old) ps)\<rparr>
                       # ds)\<rparr>)
      | _ \<Rightarrow> Inl (OtherError ''Cannot read properties of undefined''))"

definition setDescription :: "string \<Rightarrow> 'j Tool \<Rightarrow> js_error + 'j Tool" where
  "setDescription txt tool =
     (case function_declarations tool of
        Some (d # ds) \<Rightarrow>
          Inr (tool\<lparr>function_declarations := Some (d\<lparr>description := Some txt\<rparr> # ds)\<rparr>)
      | _ \<Rightarrow> Inl (OtherError ''Cannot set properties of undefined''))"

definition applyProviderConfig :: "'j Tool \<Rightarrow> 'j ProviderSpecific \<Rightarrow> js_error + 'j Tool" where
  "applyProviderConfig tool config =
     (case (case newParameters config of
              None \<Rightarrow> Inr tool
            | Some ps \<Rightarrow> setParameters ps tool) of
        Inl e \<Rightarrow> Inl e
      | Inr modifiedTool \<Rightarrow>
          (case newDescription config of
             None \<Rightarrow> Inr modifiedTool
           | Some txt \<Rightarrow> if txt = [] then Inr modifiedTool else setDescription txt modifiedTool))"

text \<open>The loop of \<open>getToolsForProvider\<close> over the entries of \<open>toolConfigs\<close>.\<close>

fun toolsLoop ::
  "(string \<times> 'j Tool) list \<Rightarrow> AIProvider \<Rightarrow> ProviderCapabilities \<Rightarrow> string list option
   \<Rightarrow> (string \<times> 'j ProviderToolConfig) list \<Rightarrow> js_error + 'j Tool list" where
  "toolsLoop tools provider caps requestedTools [] = Inr []"
| "toolsLoop tools provider caps requestedTools ((n, config) # rest) =
     (if provider \<notin> set (supportedProviders config) then
        toolsLoop tools provider caps requestedTools rest
      else if (case requiresCapability config of None \<Rightarrow> False | Some k \<Rightarrow> \<not> capability caps k) then
        toolsLoop tools provider caps requestedTools rest
      else if (case requestedTools of None \<Rightarrow> False | Some rs \<Rightarrow> n \<notin> set rs) then
        toolsLoop tools provider caps requestedTools rest
      else
        (case map_of tools n of
           None \<Rightarrow> toolsLoop tools provider caps requestedTools rest
         | Some tool \<Rightarrow>
             (case (case providerSpecificConfig config of
                      None \<Rightarrow> None
                    | Some f \<Rightarrow> f provider) of
                None \<Rightarrow>
                  (case toolsLoop tools provider caps requestedTools rest of
                     Inl e \<Rightarrow> Inl e
                   | Inr ts \<Rightarrow> Inr (tool # ts))
              | Some providerConfig \<Rightarrow>
                  (case applyProviderConfig tool providerConfig of
                     Inl e \<Rightarrow> Inl e
                   | Inr modifiedTool \<Rightarrow>
                       (case toolsLoop tools provider caps requestedTools rest of
                          Inl e \<Rightarrow> Inl e
                        | Inr ts \<Rightarrow> Inr (modifiedTool # ts))))))"

definition getToolsForProvider ::
  "'j ProviderToolRegistry \<Rightarrow> AIProvider \<Rightarrow> ProviderCapabilities \<Rightarrow> string list option
   \<Rightarrow> js_error + 'j Tool list" where
  "getToolsForProvider reg provider caps requestedTools =
     toolsLoop (globalTools reg) provider caps requestedTools (toolConfigs reg)"

definition isToolSupported ::
  "'j ProviderToolRegistry \<Rightarrow> string \<Rightarrow> AIProvider \<Rightarrow> ProviderCapabilities \<Rightarrow> bool" where
  "isToolSupported reg n provider caps =
     (case map_of (toolConfigs reg) n of
        None \<Rightarrow> False
      | Some config \<Rightarrow>
          if provider \<notin> set (supportedProviders config) then False
          else if (case requiresCapability config of None \<Rightarrow> False | Some k \<Rightarrow> \<not> capability caps k)
          then False
          else True)"

definition getUnsupportedTools ::
  "'j ProviderToolRegistry \<Rightarrow> AIProvider \<Rightarrow> ProviderCapabilities \<Rightarrow> string list \<Rightarrow> string list" where
  "getUnsupportedTools reg provider caps requestedTools =
     filter (\<lambda>n. \<not> isToolSupported reg n provider caps) requestedTools"

text \<open>The registry after a sequence of \<open>registerTool\<close> calls on a new registry.\<close>

definition registered :: "('j Tool \<times> 'j ProviderToolConfig) list \<Rightarrow> 'j ProviderToolRegistry" where
  "registered regs = fold (\<lambda>(tool, config). registerTool tool config) regs emptyRegistry"

text \<open>
  What \<open>registerTool\<close> maintains: the keys of \<open>toolConfigs\<close> are distinct, and every
  tool in \<open>globalTools\<close> is stored under its own name.
\<close>

definition regOk :: "'j ProviderToolRegistry \<Rightarrow> bool" where
  "regOk reg \<longleftrightarrow> distinct (map fst (toolConfigs reg)) \<and>
     (\<forall>n t. map_of (globalTools reg) n = Some t \<longrightarrow> getToolName t = n)"

text \<open>
  The two checks at the head of the loop of \<open>getToolsForProvider\<close>, which are also the
  checks of \<open>isToolSupported\<close>.
\<close>

definition passes :: "AIProvider \<Rightarrow> ProviderCapabilities \<Rightarrow> 'j ProviderToolConfig \<Rightarrow> bool" where
  "passes provider caps config \<longleftrightarrow>
     provider \<in> set (supportedProviders config) \<and>
     (case requiresCapability config of None \<Rightarrow> True | Some k \<Rightarrow> capability caps k)"

section \<open>Provider and agent configuration\<close>

datatype ProviderAuthType =
    OAUTH_PERSONAL | GEMINI_API_KEY | VERTEX_AI | CLOUD_SHELL
  | CLAUDE_API_KEY | OLLAMA_LOCAL | OLLAMA_REMOTE

text \<open>The string values of the two enums.\<close>

fun providerName :: "AIProvider \<Rightarrow> string" where
  "providerName GEMINI = ''gemini''"
| "providerName CLAUDE = ''claude''"
| "providerName OLLAMA = ''ollama''"

fun authTypeName :: "ProviderAuthType \<Rightarrow> string" where
  "authTypeName OAUTH_PERSONAL = ''oauth-personal''"
| "authTypeName GEMINI_API_KEY = ''gemini-api-key''"
| "authTypeName VERTEX_AI = ''vertex-ai''"
| "authTypeName CLOUD_SHELL = ''cloud-shell''"
| "authTypeName CLAUDE_API_KEY = ''claude-api-key''"
| "authTypeName OLLAMA_LOCAL = ''ollama-local''"
| "authTypeName OLLAMA_REMOTE = ''ollama-remote''"

record ProviderConfig =
  provider :: AIProvider
  model :: string
  authType :: ProviderAuthType
  apiKey :: "string option"
  endpoint :: "string option"
  proxy :: "string option"
  enabled :: bool
  maxTokens :: "int option"
  temperature :: "real option"
  topP :: "real option"
  vertexai :: "bool option"

text \<open>
  The fields \<open>name\<close> and \<open>provider\<close> of \<open>AgentConfig\<close> are \<open>agentName\<close> and
  \<open>agentProvider\<close> here.
\<close>

record 'j AgentConfig =
  agentId :: string
  agentName :: string
  agentProvider :: AIProvider
  providerConfig :: ProviderConfig
  tools :: "'j Tool list option"
  systemPrompt :: "string option"
  autoStart :: "bool option"
  maxSessions :: "int option"

text \<open>The variables of \<open>process.env\<close> that the configuration and the clients read.\<close>

record Env =
  GEMINI_API_KEY_var :: "string option"
  GOOGLE_API_KEY_var :: "string option"
  ANTHROPIC_API_KEY_var :: "string option"
  OLLAMA_HOST_var :: "string option"

text \<open>An optional string is falsy when it is absent or empty; \<open>a || b\<close> on such strings.\<close>

definition falsy :: "string option \<Rightarrow> bool" where
  "falsy s = (case s of None \<Rightarrow> True | Some v \<Rightarrow> v = [])"

definition orElse :: "string option \<Rightarrow> string option \<Rightarrow> string option" where
  "orElse a b = (if falsy a then b else a)"

definition orDefault :: "string option \<Rightarrow> string \<Rightarrow> string" where
  "orDefault a d = (case a of None \<Rightarrow> d | Some v \<Rightarrow> if v = [] then d else v)"

fun PROVIDER_MODELS :: "AIProvider \<Rightarrow> string list" where
  "PROVIDER_MODELS GEMINI =
     [''gemini-2.0-flash-exp'', ''gemini-1.5-pro'', ''gemini-1.5-flash'', ''gemini-1.0-pro'']"
| "PROVIDER_MODELS CLAUDE =
     [''claude-3-5-sonnet-20241022'', ''claude-3-5-haiku-20241022'', ''claude-3-opus-20240229'',
      ''claude-3-sonnet-20240229'', ''claude-3-haiku-20240307'']"
| "PROVIDER_MODELS OLLAMA =
     [''llama2'', ''llama2:13b'', ''llama2:70b'', ''codellama'', ''codellama:13b'',
      ''codellama:34b'', ''mistral'', ''mixtral'', ''phi'', ''neural-chat'', ''starling-lm'']"

text \<open>
  \<open>validateProviderConfig\<close> collects its error messages in order. The enum-valued fields
  \<open>provider\<close> and \<open>authType\<close> are never falsy, so their two checks add nothing; the same
  holds in \<open>validateAgentConfig\<close> for the provider and the nested configuration of an
  agent.
\<close>

definition providerSpecificErrors :: "Env \<Rightarrow> ProviderConfig \<Rightarrow> string list" where
  "providerSpecificErrors env config =
     (case provider config of
        GEMINI \<Rightarrow>
          (if (authType config = GEMINI_API_KEY \<or> authType config = VERTEX_AI) \<and>
              falsy (apiKey config) \<and> falsy (GEMINI_API_KEY_var env) \<and>
              falsy (GOOGLE_API_KEY_var env)
           then [''API key is required for Gemini API key authentication''] else [])
      | CLAUDE \<Rightarrow>
          (if authType config = CLAUDE_API_KEY \<and> falsy (apiKey config) \<and>
              falsy (ANTHROPIC_API_KEY_var env)
           then [''API key is required for Claude authentication''] else []) @
          (if falsy (endpoint config) then [''Endpoint is required for Claude''] else [])
      | OLLAMA \<Rightarrow>
          (if falsy (endpoint config) then [''Endpoint is required for Ollama''] else []))"

definition validateProviderConfig :: "Env \<Rightarrow> ProviderConfig \<Rightarrow> string list" where
  "validateProviderConfig env config =
     (if model config = [] then [''Model is required''] else []) @
     providerSpecificErrors env config @
     (if model config \<noteq> [] \<and> model config \<notin> set (PROVIDER_MODELS (provider config))
      then [''Model '' @ model config @ '' is not supported by '' @ providerName (provider config)]
      else []) @
     (case temperature config of
        None \<Rightarrow> []
      | Some t \<Rightarrow> if t < 0 \<or> t > 2 then [''Temperature must be between 0 and 2''] else []) @
     (case topP config of
        None \<Rightarrow> []
      | Some t \<Rightarrow> if t < 0 \<or> t > 1 then [''TopP must be between 0 and 1''] else []) @
     (case maxTokens config of
        None \<Rightarrow> []
      | Some n \<Rightarrow> if n < 1 then [''MaxTokens must be greater than 0''] else [])"

definition validateAgentConfig :: "Env \<Rightarrow> 'j AgentConfig \<Rightarrow> string list" where
  "validateAgentConfig env config =
     (if agentId config = [] then [''Agent ID is required''] else []) @
     (if agentName config = [] then [''Agent name is required''] else []) @
     map (\<lambda>err. ''Provider config: '' @ err) (validateProviderConfig env (providerConfig config)) @
     (case maxSessions config of
        None \<Rightarrow> []
      | Some n \<Rightarrow> if n < 1 then [''MaxSessions must be greater than 0''] else [])"

section \<open>Provider clients and the provider factory\<close>

text \<open>
  A constructed client: its provider, the configuration it was built from, and the key
  and endpoint it resolved. The constructor of the base class throws on a disabled
  configuration; the Claude client also throws without a key.
\<close>

record ProviderClient =
  clientProvider :: AIProvider
  clientConfig :: ProviderConfig
  clientApiKey :: string
  clientEndpoint :: string

definition disabledError :: "ProviderConfig \<Rightarrow> js_error" where
  "disabledError config =
     ProviderError (''Provider '' @ providerName (provider config) @ '' is disabled'')
       (provider config) None None"

definition endsWith :: "string \<Rightarrow> string \<Rightarrow> bool" where
  "endsWith s suf = suffix suf s"

definition ollamaEndpoint :: "Env \<Rightarrow> ProviderConfig \<Rightarrow> string" where
  "ollamaEndpoint env config =
     (let e = orDefault (orElse (endpoint config) (OLLAMA_HOST_var env)) ''http://localhost:11434''
      in if endsWith e ''/api'' then e
         else (if endsWith e ''/'' then butlast e else e) @ ''/api'')"

definition newClient :: "Env \<Rightarrow> AIProvider \<Rightarrow> ProviderConfig \<Rightarrow> js_error + ProviderClient" where
  "newClient env p config =
     (if \<not> enabled config then Inl (disabledError config)
      else case p of
        GEMINI \<Rightarrow>
          Inr \<lparr>clientProvider = GEMINI, clientConfig = config,
               clientApiKey = [], clientEndpoint = []\<rparr>
      | CLAUDE \<Rightarrow>
          (let k = orDefault (orElse (apiKey config) (ANTHROPIC_API_KEY_var env)) [];
               e = orDefault (endpoint config) ''https://api.anthropic.com/v1/messages''
           in if k = [] then Inl (AuthenticationError ''Claude API key is required'' CLAUDE)
              else Inr \<lparr>clientProvider = CLAUDE, clientConfig = config,
                        clientApiKey = k, clientEndpoint = e\<rparr>)
      | OLLAMA \<Rightarrow>
          Inr \<lparr>clientProvider = OLLAMA, clientConfig = config,
               clientApiKey = [], clientEndpoint = ollamaEndpoint env config\<rparr>)"

text \<open>
  What lies outside the program: the environment variables, whether the content generator
  of the first-party library can be built for a client, and whether the provider's
  endpoint answers a request of a client. Every request sent is counted.
\<close>

record World =
  processEnv :: Env
  contentGeneratorOk :: "ProviderClient \<Rightarrow> bool"
  requestOk :: "ProviderClient \<Rightarrow> bool"

text \<open>
  \<open>testConnection\<close> and \<open>validateConfig\<close> of the three clients, each with the number of
  requests it sends. The Ollama client validates by calling \<open>testConnection\<close>, which
  catches its own errors, so its \<open>validateConfig\<close> is always true.
\<close>

definition testConnection :: "World \<Rightarrow> ProviderClient \<Rightarrow> bool \<times> nat" where
  "testConnection w c =
     (case clientProvider c of
        GEMINI \<Rightarrow> if contentGeneratorOk w c then (requestOk w c, 1) else (False, 0)
      | CLAUDE \<Rightarrow> (requestOk w c, 1)
      | OLLAMA \<Rightarrow> (requestOk w c, 1))"

definition validateConfig :: "World \<Rightarrow> ProviderClient \<Rightarrow> bool \<times> nat" where
  "validateConfig w c =
     (case clientProvider c of
        GEMINI \<Rightarrow> (contentGeneratorOk w c, 0)
      | CLAUDE \<Rightarrow> (clientApiKey c \<noteq> [] \<and> clientEndpoint c \<noteq> [], 0)
      | OLLAMA \<Rightarrow> (True, snd (testConnection w c)))"

text \<open>The factory: the cache key of a configuration, and \<open>createClient\<close> on the cache.\<close>

definition createCacheKey :: "ProviderConfig \<Rightarrow> string" where
  "createCacheKey config =
     providerName (provider config) @ ''|'' @ model config @ ''|'' @
     authTypeName (authType config) @ ''|'' @ orDefault (apiKey config) ''no-key'' @ ''|'' @
     orDefault (endpoint config) ''default-endpoint''"

definition createClient ::
  "Env \<Rightarrow> (string \<times> ProviderClient) list \<Rightarrow> ProviderConfig
   \<Rightarrow> (js_error + ProviderClient) \<times> (string \<times> ProviderClient) list" where
  "createClient env clientCache config =
     (let cacheKey = createCacheKey config
      in case map_of clientCache cacheKey of
           Some c \<Rightarrow> (Inr c, clientCache)
         | None \<Rightarrow>
             (case newClient env (provider config) config of
                Inl e \<Rightarrow> (Inl e, clientCache)
              | Inr c \<Rightarrow> (Inr c, AList.update cacheKey c clientCache)))"

section \<open>MultiAgentManager\<close>

text \<open>
  A session of the manager is a \<open>BaseProviderSession\<close>: its id, the provider of its agent
  (\<open>sessionProvider\<close>), the cached client, the history and the tools (\<open>sessionTools\<close>).
\<close>

record 'j ProviderSession =
  sessionId :: string
  sessionProvider :: AIProvider
  client :: ProviderClient
  history :: "Content list"
  sessionTools :: "'j Tool list"

text \<open>
  The manager throws plain errors that differ in their message; there is one constructor
  per message, with the values the message is built from. An error of the provider
  factory or of a client constructor passes through unchanged.
\<close>

datatype manager_error =
    InvalidAgentConfiguration "string list"
  | AgentAlreadyExists string
  | InvalidProviderConfiguration string
  | CannotConnect string
  | AgentNotFound string
  | ProviderNotFound string
  | MaxConcurrentSessionsReached int
  | MaxAgentSessionsReached string int
  | SessionNotFound string
  | ClientError js_error

text \<open>The two errors that report a concurrency limit, global or of one agent.\<close>

fun concurrencyLimit :: "manager_error \<Rightarrow> bool" where
  "concurrencyLimit (MaxConcurrentSessionsReached n) = True"
| "concurrencyLimit (MaxAgentSessionsReached a n) = True"
| "concurrencyLimit e = False"

text \<open>
  The state of the manager: the cap given to its constructor (an integer), its three maps
  in insertion order, the active session, the client cache of its provider factory and
  the number of requests its clients have sent.
\<close>

record 'j AgentManager =
  maxConcurrentSessions :: int
  agents :: "(string \<times> 'j AgentConfig) list"
  sessions :: "(string \<times> 'j ProviderSession) list"
  providers :: "(string \<times> ProviderClient) list"
  activeSessionId :: "string option"
  factoryCache :: "(string \<times> ProviderClient) list"
  networkCalls :: nat

definition newManager :: "int \<Rightarrow> 'j AgentManager" where
  "newManager cap =
     \<lparr>maxConcurrentSessions = cap, agents = [], sessions = [], providers = [],
      activeSessionId = None, factoryCache = [], networkCalls = 0\<rparr>"

text \<open>The sessions whose id starts with the id of the agent.\<close>

definition agentSessions :: "'j AgentManager \<Rightarrow> string \<Rightarrow> (string \<times> 'j ProviderSession) list" where
  "agentSessions st aid = filter (\<lambda>(sid, session). prefix aid sid) (sessions st)"

text \<open>
  The second half of \<open>startSession\<close>, after the checks. The session id is built from the
  agent id, the clock (\<open>now\<close>) and a random string (\<open>rnd\<close>).
\<close>

definition registerSession ::
  "'j AgentManager \<Rightarrow> string \<Rightarrow> 'j AgentConfig \<Rightarrow> ProviderClient \<Rightarrow> string \<Rightarrow> string
   \<Rightarrow> (manager_error + string) \<times> 'j AgentManager" where
  "registerSession st aid agent c now rnd =
     (let sid = aid @ ''-'' @ now @ ''-'' @ rnd;
          session = \<lparr>sessionId = sid, sessionProvider = agentProvider agent, client = c,
                     history = (case systemPrompt agent of
                                  None \<Rightarrow> []
                                | Some p \<Rightarrow> if p = [] then [] else [userTurn [textPart p]]),
                     sessionTools = (case tools agent of None \<Rightarrow> [] | Some ts \<Rightarrow> ts)\<rparr>
      in (Inr sid,
          st\<lparr>sessions := AList.update sid session (sessions st),
             activeSessionId := (if falsy (activeSessionId st) then Some sid
                                 else activeSessionId st)\<rparr>))"

definition startSession ::
  "'j AgentManager \<Rightarrow> string \<Rightarrow> string \<Rightarrow> string \<Rightarrow> (manager_error + string) \<times> 'j AgentManager" where
  "startSession st aid now rnd =
     (case map_of (agents st) aid of
        None \<Rightarrow> (Inl (AgentNotFound aid), st)
      | Some agent \<Rightarrow>
          (case map_of (providers st) aid of
             None \<Rightarrow> (Inl (ProviderNotFound aid), st)
           | Some c \<Rightarrow>
               if maxConcurrentSessions st \<le> int (length (sessions st)) then
                 (Inl (MaxConcurrentSessionsReached (maxConcurrentSessions st)), st)
               else
                 (case maxSessions agent of
                    None \<Rightarrow> registerSession st aid agent c now rnd
                  | Some k \<Rightarrow>
                      if k \<noteq> 0 \<and> k \<le> int (length (agentSessions st aid)) then
                        (Inl (MaxAgentSessionsReached aid k), st)
                      else registerSession st aid agent c now rnd)))"

definition endSession ::
  "'j AgentManager \<Rightarrow> string \<Rightarrow> (manager_error + unit) \<times> 'j AgentManager" where
  "endSession st sid =
     (case map_of (sessions st) sid of
        None \<Rightarrow> (Inl (SessionNotFound sid), st)
      | Some session \<Rightarrow>
          (let remaining = AList.delete sid (sessions st)
           in (Inr (),
               st\<lparr>sessions := remaining,
                  activeSessionId :=
                    (if activeSessionId st = Some sid
                     then (case remaining of [] \<Rightarrow> None | entry # rest \<Rightarrow> Some (fst entry))
                     else activeSessionId st)\<rparr>)))"

text \<open>Ending a list of sessions in order, stopping at the first error.\<close>

fun endSessions ::
  "'j AgentManager \<Rightarrow> string list \<Rightarrow> manager_error option \<times> 'j AgentManager" where
  "endSessions st [] = (None, st)"
| "endSessions st (sid # sids) =
     (case endSession st sid of
        (Inl e, st') \<Rightarrow> (Some e, st')
      | (Inr u, st') \<Rightarrow> endSessions st' sids)"

definition removeAgent ::
  "'j AgentManager \<Rightarrow> string \<Rightarrow> (manager_error + unit) \<times> 'j AgentManager" where
  "removeAgent st aid =
     (case endSessions st (map fst (agentSessions st aid)) of
        (Some e, st') \<Rightarrow> (Inl e, st')
      | (None, st') \<Rightarrow>
          (Inr (),
           st'\<lparr>agents := AList.delete aid (agents st'),
               providers := AList.delete aid (providers st'),
               activeSessionId :=
                 (case activeSessionId st' of
                    None \<Rightarrow> None
                  | Some a \<Rightarrow> if a \<noteq> [] \<and> prefix aid a then None else Some a)\<rparr>))"

definition switchToSession ::
  "'j AgentManager \<Rightarrow> string \<Rightarrow> (manager_error + unit) \<times> 'j AgentManager" where
  "switchToSession st sid =
     (case map_of (sessions st) sid of
        None \<Rightarrow> (Inl (SessionNotFound sid), st)
      | Some session \<Rightarrow> (Inr (), st\<lparr>activeSessionId := Some sid\<rparr>))"

definition createAgent ::
  "World \<Rightarrow> 'j AgentManager \<Rightarrow> 'j AgentConfig \<Rightarrow> string \<Rightarrow> string
   \<Rightarrow> (manager_error + string) \<times> 'j AgentManager" where
  "createAgent w st config now rnd =
     (let errors = validateAgentConfig (processEnv w) config
      in if errors \<noteq> [] then (Inl (InvalidAgentConfiguration errors), st)
         else if map_of (agents st) (agentId config) \<noteq> None then
           (Inl (AgentAlreadyExists (agentId config)), st)
         else
           (case createClient (processEnv w) (factoryCache st) (providerConfig config) of
              (Inl e, cache) \<Rightarrow> (Inl (ClientError e), st\<lparr>factoryCache := cache\<rparr>)
            | (Inr c, cache) \<Rightarrow>
                (case validateConfig w c of
                   (isValid, n1) \<Rightarrow>
                     (let st1 = st\<lparr>factoryCache := cache,
                                    networkCalls := networkCalls st + n1\<rparr>
                      in if \<not> isValid then
                           (Inl (InvalidProviderConfiguration (agentId config)), st1)
                         else
                           (case testConnection w c of
                              (canConnect, n2) \<Rightarrow>
                                (let st2 = st1\<lparr>networkCalls := networkCalls st1 + n2\<rparr>
                                 in if \<not> canConnect then
                                      (Inl (CannotConnect (agentId config)), st2)
                                    else
                                      (let st3 = st2\<lparr>agents := AList.update (agentId config)
                                                               config (agents st2),
                                                     providers := AList.update (agentId config)
                                                                  c (providers st2)\<rparr>
                                       in if autoStart config = Some True then
                                            (case startSession st3 (agentId config) now rnd of
                                               (Inl e, st4) \<Rightarrow> (Inl e, st4)
                                             | (Inr sid, st4) \<Rightarrow> (Inr (agentId config), st4))
                                          else (Inr (agentId config), st3))))))))"

text \<open>
  \<open>Partial<AgentConfig>\<close>: a field is \<open>None\<close> when the update does not have the key.
\<close>

record 'j AgentConfigUpdates =
  newAgentId :: "string option"
  newAgentName :: "string option"
  newAgentProvider :: "AIProvider option"
  newProviderConfig :: "ProviderConfig option"
  newTools :: "'j Tool list option option"
  newSystemPrompt :: "string option option"
  newAutoStart :: "bool option option"
  newMaxSessions :: "int option option"

text \<open>The spread \<open>{...existingAgent, ...updates}\<close>.\<close>

definition applyUpdates :: "'j AgentConfig \<Rightarrow> 'j AgentConfigUpdates \<Rightarrow> 'j AgentConfig" where
  "applyUpdates existingAgent updates =
     \<lparr>agentId = (case newAgentId updates of None \<Rightarrow> agentId existingAgent | Some v \<Rightarrow> v),
      agentName = (case newAgentName updates of None \<Rightarrow> agentName existingAgent | Some v \<Rightarrow> v),
      agentProvider = (case newAgentProvider updates of
                         None \<Rightarrow> agentProvider existingAgent | Some v \<Rightarrow> v),
      providerConfig = (case newProviderConfig updates of
                          None \<Rightarrow> providerConfig existingAgent | Some v \<Rightarrow> v),
      tools = (case newTools updates of None \<Rightarrow> tools existingAgent | Some v \<Rightarrow> v),
      systemPrompt = (case newSystemPrompt updates of
                        None \<Rightarrow> systemPrompt existingAgent | Some v \<Rightarrow> v),
      autoStart = (case newAutoStart updates of None \<Rightarrow> autoStart existingAgent | Some v \<Rightarrow> v),
      maxSessions = (case newMaxSessions updates of
                       None \<Rightarrow> maxSessions existingAgent | Some v \<Rightarrow> v)\<rparr>"

definition updateAgent ::
  "World \<Rightarrow> 'j AgentManager \<Rightarrow> string \<Rightarrow> 'j AgentConfigUpdates
   \<Rightarrow> (manager_error + unit) \<times> 'j AgentManager" where
  "updateAgent w st aid updates =
     (case map_of (agents st) aid of
        None \<Rightarrow> (Inl (AgentNotFound aid), st)
      | Some existingAgent \<Rightarrow>
          (let updatedAgent = applyUpdates existingAgent updates;
               errors = validateAgentConfig (processEnv w) updatedAgent
           in if errors \<noteq> [] then (Inl (InvalidAgentConfiguration errors), st)
              else
                (case newProviderConfig updates of
                   None \<Rightarrow> (Inr (), st\<lparr>agents := AList.update aid updatedAgent (agents st)\<rparr>)
                 | Some pc \<Rightarrow>
                     (case createClient (processEnv w) (factoryCache st)
                             (providerConfig updatedAgent) of
                        (Inl e, cache) \<Rightarrow> (Inl (ClientError e), st\<lparr>factoryCache := cache\<rparr>)
                      | (Inr c, cache) \<Rightarrow>
                          (case validateConfig w c of
                             (isValid, n1) \<Rightarrow>
                               (let st1 = st\<lparr>factoryCache := cache,
                                              networkCalls := networkCalls st + n1\<rparr>
                                in if \<not> isValid then
                                     (Inl (InvalidProviderConfiguration aid), st1)
                                   else
                                     (Inr (),
                                      st1\<lparr>providers := AList.update aid c (providers st1),
                                          agents := AList.update aid updatedAgent
                                                      (agents st1)\<rparr>)))))))"

text \<open>\<open>shutdown\<close> ends every session, ignoring the errors, and clears the other maps.\<close>

definition shutdown :: "'j AgentManager \<Rightarrow> 'j AgentManager" where
  "shutdown st =
     (let st' = fold (\<lambda>sid s. snd (endSession s sid)) (map fst (sessions st)) st
      in st'\<lparr>agents := [], providers := [], activeSessionId := None\<rparr>)"

fun getDefaultModel :: "AIProvider \<Rightarrow> string" where
  "getDefaultModel GEMINI = ''gemini-2.0-flash-exp''"
| "getDefaultModel CLAUDE = ''claude-3-5-sonnet-20241022''"
| "getDefaultModel OLLAMA = ''llama2''"

fun getDefaultAuthType :: "AIProvider \<Rightarrow> ProviderAuthType" where
  "getDefaultAuthType GEMINI = GEMINI_API_KEY"
| "getDefaultAuthType CLAUDE = CLAUDE_API_KEY"
| "getDefaultAuthType OLLAMA = OLLAMA_LOCAL"

text \<open>
  The agent that \<open>createQuickSession\<close> makes up; its id is built from the provider and
  the clock (\<open>now\<close>).
\<close>

definition quickAgentId :: "AIProvider \<Rightarrow> string \<Rightarrow> string" where
  "quickAgentId p now = ''quick-'' @ providerName p @ ''-'' @ now"

definition quickAgentConfig ::
  "AIProvider \<Rightarrow> string option \<Rightarrow> string option \<Rightarrow> string \<Rightarrow> 'j AgentConfig" where
  "quickAgentConfig p mdl nm now =
     \<lparr>agentId = quickAgentId p now,
      agentName = orDefault nm (''Quick '' @ providerName p @ '' Agent''),
      agentProvider = p,
      providerConfig =
        \<lparr>provider = p, model = orDefault mdl (getDefaultModel p),
         authType = getDefaultAuthType p, apiKey = None, endpoint = None, proxy = None,
         enabled = True, maxTokens = None, temperature = None, topP = None, vertexai = None\<rparr>,
      tools = None, systemPrompt = None, autoStart = Some True, maxSessions = None\<rparr>"

text \<open>
  \<open>createQuickSession\<close> reads the clock for the agent id; each of the two calls of
  \<open>startSession\<close> that it reaches reads the clock and a random string for its session id.
\<close>

definition createQuickSession ::
  "World \<Rightarrow> 'j AgentManager \<Rightarrow> AIProvider \<Rightarrow> string option \<Rightarrow> string option
   \<Rightarrow> string \<Rightarrow> string \<Rightarrow> string \<Rightarrow> string \<Rightarrow> string
   \<Rightarrow> (manager_error + string) \<times> 'j AgentManager" where
  "createQuickSession w st p mdl nm now now1 rnd1 now2 rnd2 =
     (case createAgent w st (quickAgentConfig p mdl nm now) now1 rnd1 of
        (Inl e, st') \<Rightarrow> (Inl e, st')
      | (Inr aid, st') \<Rightarrow> startSession st' (quickAgentId p now) now2 rnd2)"

text \<open>
  The operations that change the manager, with what each reads from outside, and the
  state after a sequence of them.
\<close>

datatype 'j operation =
    CreateAgent World "'j AgentConfig" string string
  | RemoveAgent string
  | StartSession string string string
  | EndSession string
  | SwitchToSession string
  | UpdateAgent World string "'j AgentConfigUpdates"
  | Shutdown
  | CreateQuickSession World AIProvider "string option" "string option"
      string string string string string

fun step :: "'j AgentManager \<Rightarrow> 'j operation \<Rightarrow> 'j AgentManager" where
  "step st (CreateAgent w config now rnd) = snd (createAgent w st config now rnd)"
| "step st (RemoveAgent aid) = snd (removeAgent st aid)"
| "step st (StartSession aid now rnd) = snd (startSession st aid now rnd)"
| "step st (EndSession sid) = snd (endSession st sid)"
| "step st (SwitchToSession sid) = snd (switchToSession st sid)"
| "step st (UpdateAgent w aid updates) = snd (updateAgent w st aid updates)"
| "step st Shutdown = shutdown st"
| "step st (CreateQuickSession w p mdl nm now now1 rnd1 now2 rnd2) =
     snd (createQuickSession w st p mdl nm now now1 rnd1 now2 rnd2)"

definition run :: "'j AgentManager \<Rightarrow> 'j operation list \<Rightarrow> 'j AgentManager" where
  "run st ops = foldl step st ops"

text \<open>
  What every operation of the manager maintains: the cap is the one given to the
  constructor, the number of sessions is at most the cap, the session ids are distinct,
  and every registered agent has a registered client and a session cap other than 0.
\<close>

definition managerOk :: "int \<Rightarrow> 'j AgentManager \<Rightarrow> bool" where
  "managerOk cap st \<longleftrightarrow>
     maxConcurrentSessions st = cap \<and>
     int (length (sessions st)) \<le> maxConcurrentSessions st \<and>
     distinct (map fst (sessions st)) \<and>
     (\<forall>aid agent. map_of (agents st) aid = Some agent \<longrightarrow>
        maxSessions agent \<noteq> Some 0 \<and> map_of (providers st) aid \<noteq> None)"

text \<open>
  An example: a world in which a Gemini key is set and every service answers, and an
  agent on the Gemini provider limited to one session.
\<close>

definition demoWorld :: World where
  "demoWorld = \<lparr>processEnv = \<lparr>GEMINI_API_KEY_var = Some ''k'', GOOGLE_API_KEY_var = None,
                    ANTHROPIC_API_KEY_var = None, OLLAMA_HOST_var = None\<rparr>,
                 contentGeneratorOk = (\<lambda>c. True), requestOk = (\<lambda>c. True)\<rparr>"

definition demoAgent :: "unit AgentConfig" where
  "demoAgent = \<lparr>agentId = ''A'', agentName = ''Agent A'', agentProvider = GEMINI,
       providerConfig = \<lparr>provider = GEMINI, model = ''gemini-1.5-pro'', authType = GEMINI_API_KEY,
          apiKey = None, endpoint = None, proxy = None, enabled = True, maxTokens = None,
          temperature = None, topP = None, vertexai = None\<rparr>,
       tools = None, systemPrompt = None, autoStart = None, maxSessions = Some 1\<rparr>"

text \<open>
  An agent on the Claude provider with a key and an endpoint in its configuration, with a
  given id and a given \<open>enabled\<close> flag.
\<close>

definition demoClaudeAgent :: "string \<Rightarrow> bool \<Rightarrow> unit AgentConfig" where
  "demoClaudeAgent aid on =
     \<lparr>agentId = aid, agentName = ''Claude agent'', agentProvider = CLAUDE,
      providerConfig =
        \<lparr>provider = CLAUDE, model = ''claude-3-opus-20240229'', authType = CLAUDE_API_KEY,
         apiKey = Some ''sk-1'', endpoint = Some ''https://api.anthropic.com/v1/messages'',
         proxy = None, enabled = on, maxTokens = None, temperature = None, topP = None,
         vertexai = None\<rparr>,
      tools = None, systemPrompt = None, autoStart = None, maxSessions = None\<rparr>"

section \<open>Properties of history trimming\<close>

text \<open>
  C5. Trimming is idempotent once under budget: when the token count of the history is at
  most the limit, the trim routine returns normally and leaves the history unchanged; in
  particular a second run after a run that brought the history under the limit changes
  nothing.
\<close>

theorem trim_idempotent_under_budget:
  "(countTokens hist = Inr n \<and> n \<le> limit \<longrightarrow>
      trimHistoryToTokenLimit countTokens limit hist = (None, hist)) \<and>
   (trimHistoryToTokenLimit countTokens limit hist = (None, h') \<and>
    countTokens h' = Inr n' \<and> n' \<le> limit \<longrightarrow>
      trimHistoryToTokenLimit countTokens limit h' = (None, h'))"
  by (simp add: trimHistoryToTokenLimit_def)

theorem trim_idempotent_under_budget_witness:
  "trimHistoryToTokenLimit (\<lambda>h. Inr (10 * int (length h)) :: unit + int) 25
      [userTurn [textPart ''a''], modelTurn [textPart ''b''],
       userTurn [textPart ''c''], modelTurn [textPart ''d'']]
     = (None, [userTurn [textPart ''c''], modelTurn [textPart ''d'']]) \<and>
   (\<lambda>h. Inr (10 * int (length h)) :: unit + int)
      [userTurn [textPart ''c''], modelTurn [textPart ''d'']] = Inr 20 \<and>
   (20::int) \<le> 25 \<and>
   trimHistoryToTokenLimit (\<lambda>h. Inr (10 * int (length h)) :: unit + int) 25
      [userTurn [textPart ''c''], modelTurn [textPart ''d'']]
     = (None, [userTurn [textPart ''c''], modelTurn [textPart ''d'']])"
  using trim_idempotent_under_budget
    [of "\<lambda>h. Inr (10 * int (length h)) :: unit + int"
        "[userTurn [textPart ''c''], modelTurn [textPart ''d'']]" 20 25
        "[userTurn [textPart ''c''], modelTurn [textPart ''d'']]" 20]
  by (simp add: trimHistoryToTokenLimit_def userTurn_def modelTurn_def)

section \<open>Properties of the curated history\<close>

text \<open>
  C4. The claim is that the curated history never holds a turn with zero parts or with a
  sole empty-text part. \<open>getHistory\<close> of the chat-session base class does not look at its
  \<open>curated\<close> argument: after \<open>addHistory\<close> of a turn without parts (or \<open>setHistory\<close> and
  \<open>addHistory\<close> of a turn whose only part is the empty text) the curated view returns
  that turn, whereas \<open>getCuratedHistory\<close> of the provider session drops both.
\<close>

theorem getHistory_curated_keeps_empty_turn:
  "getHistory True (addHistory (userTurn []) (clearHistory h)) = [userTurn []] \<and>
   parts (userTurn []) = Some [] \<and>
   getHistory True (addHistory (modelTurn [textPart []]) (setHistory [] h))
     = [modelTurn [textPart []]] \<and>
   getCuratedHistory [userTurn [], modelTurn [textPart []]] = []"
  by (simp add: getHistory_def addHistory_def clearHistory_def setHistory_def userTurn_def
      modelTurn_def getCuratedHistory_def isValidContent_def textPart_def emptyPart_def)

section \<open>Properties of streaming with history update\<close>

lemma wrapLoop_flag:
  "hasAddedUserContent (snd (wrapLoop u st rs)) = (hasAddedUserContent st \<or> rs \<noteq> [])"
  by (induction rs arbitrary: st) (auto simp: wrapStep_def Let_def)

lemma wrapLoop_history:
  "sessionHistory (snd (wrapLoop u st rs)) =
     (if hasAddedUserContent st \<or> rs = [] then sessionHistory st else sessionHistory st @ [u])"
  by (induction rs arbitrary: st) (auto simp: wrapStep_def Let_def)

lemma wrapLoop_modelContents:
  "modelContents (snd (wrapLoop u st rs)) = modelContents st @ concat (map content rs)"
  by (induction rs arbitrary: st) (auto simp: wrapStep_def Let_def)

text \<open>
  What a stream that completes leaves in the history: nothing at all when it yielded no
  response, otherwise the user turn followed by the contents of every response yielded.
\<close>

lemma wrapStream_completed_history:
  "finalHistory (wrapStreamWithHistoryUpdate hist userContent (rs, None)) =
     (if rs = [] then hist else hist @ [userContent] @ concat (map content rs))"
  by (simp add: wrapStreamWithHistoryUpdate_def Let_def wrapLoop_flag wrapLoop_history
      wrapLoop_modelContents)

text \<open>
  C3. When the provider stream throws, whether before its first response or after any
  number of responses, the error reaches the caller and the history the session is left
  with is the history before the call followed by the user's turn.
\<close>

theorem stream_error_commits_user_turn:
  "thrown (wrapStreamWithHistoryUpdate hist userContent (rs, Some e)) = Some e \<and>
   finalHistory (wrapStreamWithHistoryUpdate hist userContent (rs, Some e))
     = hist @ [userContent]"
  by (simp add: wrapStreamWithHistoryUpdate_def Let_def wrapLoop_flag wrapLoop_history)

lemma wrapLoop_responses: "map fst (fst (wrapLoop u st rs)) = rs"
  by (induction rs arbitrary: st) (simp_all add: Let_def)

lemma wrapLoop_snapshots:
  "snapshot \<in> snd ` set (fst (wrapLoop u st rs)) \<Longrightarrow>
   snapshot = (if hasAddedUserContent st then sessionHistory st else sessionHistory st @ [u])"
proof (induction rs arbitrary: st)
  case Nil
  then show ?case by simp
next
  case (Cons r rs)
  have step: "hasAddedUserContent (wrapStep u st r)"
    "sessionHistory (wrapStep u st r) =
       (if hasAddedUserContent st then sessionHistory st else sessionHistory st @ [u])"
    by (simp_all add: wrapStep_def Let_def)
  from Cons.prems consider "snapshot = sessionHistory (wrapStep u st r)"
    | "snapshot \<in> snd ` set (fst (wrapLoop u (wrapStep u st r) rs))"
    by (auto simp add: Let_def)
  then show ?case
  proof cases
    case 1
    then show ?thesis using step(2) by simp
  next
    case 2
    then show ?thesis using Cons.IH [OF 2] step by simp
  qed
qed

text \<open>
  C2 (amended). When the provider stream completes after yielding at least one response,
  the wrapped stream yields the same responses and completes; the user turn is pushed
  when the first response arrives, so every response is yielded with the history being
  the history before the call followed by the user turn; the model content is appended
  only after the stream is drained, and every turn appended then is a content of one of
  the responses.
\<close>

theorem streaming_history_update:
  assumes "rs \<noteq> []"
  shows "let r = wrapStreamWithHistoryUpdate hist userContent (rs, None :: 'e option) in
           thrown r = None \<and> map fst (yielded r) = rs \<and>
           (\<forall>snapshot \<in> snd ` set (yielded r). snapshot = hist @ [userContent]) \<and>
           (\<exists>ms. finalHistory r = hist @ [userContent] @ ms \<and>
                 set ms \<subseteq> (\<Union>response \<in> set rs. set (content response)))"
proof -
  let ?st0 = "\<lparr>sessionHistory = hist, modelContents = [], hasAddedUserContent = False\<rparr>"
  let ?r = "wrapStreamWithHistoryUpdate hist userContent (rs, None :: 'e option)"
  have y: "yielded ?r = fst (wrapLoop userContent ?st0 rs)"
    and t: "thrown ?r = None"
    by (simp_all add: wrapStreamWithHistoryUpdate_def Let_def)
  have resp: "map fst (yielded ?r) = rs"
    using y wrapLoop_responses by simp
  have snap: "snapshot = hist @ [userContent]" if "snapshot \<in> snd ` set (yielded ?r)"
    for snapshot
    using wrapLoop_snapshots [of snapshot userContent ?st0 rs] that y by simp
  have fin: "finalHistory ?r = hist @ [userContent] @ concat (map content rs)"
    using assms by (simp add: wrapStream_completed_history)
  have sub: "set (concat (map content rs)) \<subseteq> (\<Union>response \<in> set rs. set (content response))"
    by auto
  show ?thesis
    unfolding Let_def using t resp snap fin sub by blast
qed

theorem streaming_history_update_witness:
  "let r = wrapStreamWithHistoryUpdate [] (userTurn [textPart ''hi''])
             ([incrementalResponse ''m'' ''Hello''], None :: unit option)
   in [incrementalResponse ''m'' ''Hello''] \<noteq> [] \<and> thrown r = None \<and>
      map fst (yielded r) = [incrementalResponse ''m'' ''Hello''] \<and>
      map snd (yielded r) = [[userTurn [textPart ''hi'']]] \<and>
      finalHistory r = [userTurn [textPart ''hi''], modelTurn [textPart ''Hello'']]"
  using streaming_history_update
    [of "[incrementalResponse ''m'' ''Hello'']" "[]" "userTurn [textPart ''hi'']"]
  by (simp add: Let_def wrapStreamWithHistoryUpdate_def wrapStep_def incrementalResponse_def)

text \<open>
  Counterexample to C2 as it was stated (the history changes only after the stream is
  drained, and then holds the complete message as a single model turn).
  On a Claude event stream with the two text deltas \<open>Hel\<close> and \<open>lo\<close> the adapter
  yields two responses, carrying \<open>Hel\<close> and \<open>Hello\<close>. The session has already pushed
  the user turn when the first one is yielded, so the history does not wait for the end
  of the stream; and after the stream is drained the history holds one model turn per
  response, not a single turn with the complete message.
  The JSON parser is given by its value on the two payloads of the stream.
\<close>

theorem streamed_history_keeps_every_delta:
  \<open>let parse = (\<lambda>s.
         if s = ''{"type":"content_block_delta","delta":{"type":"text_delta","text":"Hel"}}''
         then Some \<lparr>chunkType = ''content_block_delta'', deltaText = Some ''Hel'',
                     chunkMessage = None :: unit option, chunkUsage = None\<rparr>
         else if s = ''{"type":"content_block_delta","delta":{"type":"text_delta","text":"lo"}}''
         then Some \<lparr>chunkType = ''content_block_delta'', deltaText = Some ''lo'',
                     chunkMessage = None, chunkUsage = None\<rparr>
         else None);
       r = wrapStreamWithHistoryUpdate [] (userTurn [textPart ''hi''])
             (convertStreamToUnified parse ''claude-3-opus-20240229''
               ([''data: {"type":"content_block_delta","delta":{"type":"text_delta","text":"Hel"}}\<newline>'',
                 ''data: {"type":"content_block_delta","delta":{"type":"text_delta","text":"lo"}}\<newline>''],
                None :: unit option))
   in finalHistory r =
        [userTurn [textPart ''hi''], modelTurn [textPart ''Hel''], modelTurn [textPart ''Hello'']] \<and>
      map snd (yielded r) = [[userTurn [textPart ''hi'']], [userTurn [textPart ''hi'']]]\<close>
  by (simp add: Let_def wrapStreamWithHistoryUpdate_def convertStreamToUnified_def claudeLine_def
      wrapStep_def incrementalResponse_def)

section \<open>Properties of the Claude stream conversion\<close>

lemma split_no_sep: "sep \<notin> set s \<Longrightarrow> split sep s = [s]"
  by (induction s) auto

lemma split_append_sep: "sep \<notin> set s \<Longrightarrow> split sep (s @ sep # t) = s # split sep t"
  by (induction s) auto

lemma claudeLine_not_data:
  "\<not> prefix ''data: '' line \<Longrightarrow> claudeLine parse mdl st line = (st, [])"
  by (simp add: claudeLine_def)

lemma claudeLine_unparsed:
  "parse p = None \<Longrightarrow> claudeLine parse mdl st (''data: '' @ p) = (st, [])"
  by (simp add: claudeLine_def)

lemma claudeLine_delta:
  "parse p = Some d \<Longrightarrow> chunkType d = ''content_block_delta'' \<Longrightarrow> deltaText d = Some t \<Longrightarrow>
   t \<noteq> [] \<Longrightarrow>
   claudeLine parse mdl st (''data: '' @ p) =
     (st\<lparr>currentText := currentText st @ t\<rparr>, [incrementalResponse mdl (currentText st @ t)])"
  by (simp add: claudeLine_def)

text \<open>
  C7. The claim is that a \<open>data:\<close> line split across two reads is buffered, so that the
  events do not depend on the read boundaries. The adapter splits every read on its own
  and keeps nothing between reads: a line carrying a text delta yields its response when
  it arrives in one read, and yields nothing when the read boundary falls inside its
  payload, since the first piece does not parse and the second does not start with
  \<open>data: \<close>.
\<close>

theorem claude_stream_split_line_dropped:
  assumes "parse payload = Some d"
    and "chunkType d = ''content_block_delta''"
    and "deltaText d = Some t"
    and "t \<noteq> []"
    and "CHR ''\<newline>'' \<notin> set payload"
    and "parse (take k payload) = None"
    and "\<not> prefix ''data: '' (drop k payload)"
  shows "convertStreamToUnified parse mdl ([''data: '' @ payload @ ''\<newline>''], None)
           = ([incrementalResponse mdl t], None) \<and>
         convertStreamToUnified parse mdl
             ([''data: '' @ take k payload, drop k payload @ ''\<newline>''], None)
           = ([], None)"
proof -
  have nl1: "CHR ''\<newline>'' \<notin> set (''data: '' @ payload)"
    using assms(5) by simp
  have nl2: "CHR ''\<newline>'' \<notin> set (''data: '' @ take k payload)"
    using assms(5) by (auto dest: in_set_takeD)
  have nl3: "CHR ''\<newline>'' \<notin> set (drop k payload)"
    using assms(5) by (auto dest: in_set_dropD)
  have s1: "split CHR ''\<newline>'' (''data: '' @ payload @ ''\<newline>'') = [''data: '' @ payload, []]"
    using split_append_sep [OF nl1, of "[]"] by simp
  have s2: "split CHR ''\<newline>'' (''data: '' @ take k payload) = [''data: '' @ take k payload]"
    using split_no_sep [OF nl2] .
  have s3: "split CHR ''\<newline>'' (drop k payload @ ''\<newline>'') = [drop k payload, []]"
    using split_append_sep [OF nl3, of "[]"] by simp
  have e: "claudeLine parse mdl st [] = (st, [])" for st :: "'a ClaudeStreamState"
    by (simp add: claudeLine_def)
  have whole: "claudeReads parse mdl \<lparr>currentMessage = None, currentText = []\<rparr>
                 [''data: '' @ payload @ ''\<newline>''] = [incrementalResponse mdl t]"
    using claudeLine_delta [of parse payload d t mdl "\<lparr>currentMessage = None, currentText = []\<rparr>"]
      assms(1-4)
    by (simp only: claudeReads.simps s1 claudeLines.simps Let_def e) simp
  have pieces: "claudeReads parse mdl \<lparr>currentMessage = None, currentText = []\<rparr>
                 [''data: '' @ take k payload, drop k payload @ ''\<newline>''] = []"
    using claudeLine_unparsed [of parse "take k payload" mdl "\<lparr>currentMessage = None, currentText = []\<rparr>"]
      claudeLine_not_data [of "drop k payload" parse mdl "\<lparr>currentMessage = None, currentText = []\<rparr>"]
      assms(6,7)
    by (simp only: claudeReads.simps s2 s3 claudeLines.simps Let_def e) simp
  show ?thesis
    using whole pieces by (simp add: convertStreamToUnified_def)
qed

theorem claude_stream_split_line_dropped_witness:
  \<open>let payload = ''{"type":"content_block_delta","delta":{"type":"text_delta","text":"Hi"}}'';
       parse = (\<lambda>s. if s = payload
                      then Some \<lparr>chunkType = ''content_block_delta'', deltaText = Some ''Hi'',
                                  chunkMessage = None :: unit option, chunkUsage = None\<rparr>
                      else None)
   in convertStreamToUnified parse ''m'' ([''data: '' @ payload @ ''\<newline>''], None :: unit option)
        = ([incrementalResponse ''m'' ''Hi''], None) \<and>
      convertStreamToUnified parse ''m''
          ([''data: '' @ take 40 payload, drop 40 payload @ ''\<newline>''], None :: unit option)
        = ([], None)\<close>
  using claude_stream_split_line_dropped
    [of \<open>\<lambda>s. if s = ''{"type":"content_block_delta","delta":{"type":"text_delta","text":"Hi"}}''
                      then Some \<lparr>chunkType = ''content_block_delta'', deltaText = Some ''Hi'',
                                  chunkMessage = None :: unit option, chunkUsage = None\<rparr>
                      else None\<close>
        \<open>''{"type":"content_block_delta","delta":{"type":"text_delta","text":"Hi"}}''\<close>
        \<open>\<lparr>chunkType = ''content_block_delta'', deltaText = Some ''Hi'',
                                  chunkMessage = None :: unit option, chunkUsage = None\<rparr>\<close>
        \<open>''Hi''\<close> 40 \<open>''m''\<close>]
  by (simp add: Let_def)

section \<open>Properties of the retry routine\<close>

declare retryLoop.simps [simp del]

lemma retryLoop_calls_slept:
  "attempt \<le> maxRetries \<Longrightarrow>
   attempt < calls (retryLoop p operation random maxRetries b attempt le ds) \<and>
   calls (retryLoop p operation random maxRetries b attempt le ds) \<le> maxRetries + 1 \<and>
   slept (retryLoop p operation random maxRetries b attempt le ds) =
     ds @ map (sleepFor random b)
            [attempt ..< calls (retryLoop p operation random maxRetries b attempt le ds) - 1]"
proof (induction p operation random maxRetries b attempt le ds rule: retryLoop.induct)
  case (1 p operation random maxRetries b attempt le ds)
  show ?case
  proof (cases "operation attempt")
    case (Inr v)
    then show ?thesis using "1.prems" by (simp add: retryLoop.simps [of p operation random maxRetries b attempt])
  next
    case (Inl error)
    show ?thesis
    proof (cases "attempt = maxRetries \<or> notRetried error")
      case True
      then show ?thesis using Inl "1.prems"
        by (auto simp add: retryLoop.simps [of p operation random maxRetries b attempt])
    next
      case False
      then have lt: "attempt + 1 \<le> maxRetries" using "1.prems" by simp
      have unfold: "retryLoop p operation random maxRetries b attempt le ds =
          retryLoop p operation random maxRetries b (attempt + 1) (Some error)
            (ds @ [sleepFor random b attempt])"
        using False Inl "1.prems"
        by (simp add: retryLoop.simps [of p operation random maxRetries b attempt] Let_def sleepFor_def)
      have ih: "attempt + 1 < calls (retryLoop p operation random maxRetries b (attempt + 1) (Some error) (ds @ [sleepFor random b attempt])) \<and>
   calls (retryLoop p operation random maxRetries b (attempt + 1) (Some error) (ds @ [sleepFor random b attempt])) \<le> maxRetries + 1 \<and>
   slept (retryLoop p operation random maxRetries b (attempt + 1) (Some error) (ds @ [sleepFor random b attempt])) =
     (ds @ [sleepFor random b attempt]) @ map (sleepFor random b)
            [attempt + 1 ..< calls (retryLoop p operation random maxRetries b (attempt + 1) (Some error) (ds @ [sleepFor random b attempt])) - 1]"
        using "1.IH" [OF "1.prems" Inl _ _ refl refl lt] False
        by (simp add: sleepFor_def)
      let ?c = "calls (retryLoop p operation random maxRetries b (attempt + 1)
                 (Some error) (ds @ [sleepFor random b attempt]))"
      have c1: "attempt + 1 < ?c"
        using ih by simp
      have "[attempt ..< ?c - 1] = attempt # [attempt + 1 ..< ?c - 1]"
        using c1 by (simp add: upt_conv_Cons)
      then show ?thesis
        unfolding unfold using ih by simp
    qed
  qed
qed

lemma retryLoop_success:
  "attempt \<le> k \<Longrightarrow> k \<le> maxRetries \<Longrightarrow> operation k = Inr v \<Longrightarrow>
   (\<And>j. attempt \<le> j \<Longrightarrow> j < k \<Longrightarrow> \<exists>e. operation j = Inl e \<and> \<not> notRetried e) \<Longrightarrow>
   outcome (retryLoop p operation random maxRetries b attempt le ds) = Inr v \<and>
   calls (retryLoop p operation random maxRetries b attempt le ds) = k + 1"
proof (induction "k - attempt" arbitrary: attempt le ds)
  case 0
  then have "attempt = k" by simp
  then show ?case using 0 by (simp add: retryLoop.simps [of p operation random maxRetries b k])
next
  case (Suc n)
  then have lt: "attempt < k" by simp
  then obtain e where e: "operation attempt = Inl e" "\<not> notRetried e"
    using Suc.prems(4) [of attempt] by auto
  have unfold: "retryLoop p operation random maxRetries b attempt le ds =
      retryLoop p operation random maxRetries b (attempt + 1) (Some e)
        (ds @ [b * 2 ^ attempt + random attempt * 0.1 * (b * 2 ^ attempt)])"
    using e lt Suc.prems(2)
    by (simp add: retryLoop.simps [of p operation random maxRetries b attempt] Let_def)
  have "outcome (retryLoop p operation random maxRetries b (attempt + 1) (Some e)
        (ds @ [b * 2 ^ attempt + random attempt * 0.1 * (b * 2 ^ attempt)])) = Inr v \<and>
   calls (retryLoop p operation random maxRetries b (attempt + 1) (Some e)
        (ds @ [b * 2 ^ attempt + random attempt * 0.1 * (b * 2 ^ attempt)])) = k + 1"
    using Suc.hyps(1) [of "attempt + 1"] Suc.hyps(2) lt Suc.prems(2,3,4) by simp
  then show ?case unfolding unfold .
qed

lemma retryLoop_not_retried:
  "attempt \<le> k \<Longrightarrow> k \<le> maxRetries \<Longrightarrow> operation k = Inl e \<Longrightarrow> notRetried e \<Longrightarrow>
   (\<And>j. attempt \<le> j \<Longrightarrow> j < k \<Longrightarrow> \<exists>e'. operation j = Inl e' \<and> \<not> notRetried e') \<Longrightarrow>
   outcome (retryLoop p operation random maxRetries b attempt le ds) = Inl (handleError p e) \<and>
   calls (retryLoop p operation random maxRetries b attempt le ds) = k + 1"
proof (induction "k - attempt" arbitrary: attempt le ds)
  case 0
  then have "attempt = k" by simp
  then show ?case using 0 by (simp add: retryLoop.simps [of p operation random maxRetries b k])
next
  case (Suc n)
  then have lt: "attempt < k" by simp
  then obtain e' where e': "operation attempt = Inl e'" "\<not> notRetried e'"
    using Suc.prems(5) [of attempt] by auto
  have unfold: "retryLoop p operation random maxRetries b attempt le ds =
      retryLoop p operation random maxRetries b (attempt + 1) (Some e')
        (ds @ [b * 2 ^ attempt + random attempt * 0.1 * (b * 2 ^ attempt)])"
    using e' lt Suc.prems(2)
    by (simp add: retryLoop.simps [of p operation random maxRetries b attempt] Let_def)
  have "outcome (retryLoop p operation random maxRetries b (attempt + 1) (Some e')
        (ds @ [b * 2 ^ attempt + random attempt * 0.1 * (b * 2 ^ attempt)]))
          = Inl (handleError p e) \<and>
   calls (retryLoop p operation random maxRetries b (attempt + 1) (Some e')
        (ds @ [b * 2 ^ attempt + random attempt * 0.1 * (b * 2 ^ attempt)])) = k + 1"
    using Suc.hyps(1) [of "attempt + 1"] Suc.hyps(2) lt Suc.prems(2,3,4,5) by simp
  then show ?case unfolding unfold .
qed

lemma sleepFor_bounds:
  "0 \<le> random k \<Longrightarrow> random k < 1 \<Longrightarrow> 0 \<le> b \<Longrightarrow>
   b * 2 ^ k \<le> sleepFor random b k \<and> sleepFor random b k \<le> 1.1 * (b * 2 ^ k)"
proof -
  assume r: "0 \<le> random k" "random k < 1" and b: "0 \<le> b"
  have d: "0 \<le> b * 2 ^ k" using b by simp
  have "random k * (b * 2 ^ k) \<le> 1 * (b * 2 ^ k)"
    using r d by (intro mult_right_mono) auto
  moreover have "0 \<le> random k * (b * 2 ^ k)" using r d by simp
  ultimately show ?thesis by (simp add: sleepFor_def)
qed


text \<open>
  C6. With \<open>Math.random()\<close> in \<open>[0, 1)\<close> and a non-negative base delay, the retry routine
  called with \<open>maxRetries = n\<close> and base delay \<open>b\<close> calls the operation at most \<open>n + 1\<close>
  times (3 retries and 1000 ms when the arguments are left out), sleeps before retry
  \<open>k + 1\<close> for a time between \<open>b * 2 ^ k\<close> and that plus 10%, returns the first success
  when every earlier attempt failed with an error that is retried and the success comes
  within \<open>n\<close> retries, and at the first failure with a provider error of status 401, 403
  or 404 throws that error without calling the operation again.
\<close>

theorem retryWithBackoff_policy:
  fixes operation :: "nat \<Rightarrow> js_error + 'a"
  assumes rnd: "\<And>k. 0 \<le> random k \<and> random k < 1" and base: "0 \<le> b"
  shows "let r = retryWithBackoff p operation random (Some n) (Some b) in
           retryWithBackoff p operation random None None
             = retryWithBackoff p operation random (Some 3) (Some 1000) \<and>
           calls r \<le> n + 1 \<and>
           length (slept r) = calls r - 1 \<and>
           (\<forall>k < length (slept r).
              b * 2 ^ k \<le> slept r ! k \<and> slept r ! k \<le> 1.1 * (b * 2 ^ k)) \<and>
           (\<forall>k v. k \<le> n \<and> operation k = Inr v \<and>
                  (\<forall>j < k. \<exists>e. operation j = Inl e \<and> \<not> notRetried e)
                  \<longrightarrow> outcome r = Inr v \<and> calls r = k + 1) \<and>
           (\<forall>k m q c s. k \<le> n \<and> operation k = Inl (ProviderError m q c (Some s)) \<and>
                      (s = 401 \<or> s = 403 \<or> s = 404) \<and>
                      (\<forall>j < k. \<exists>e. operation j = Inl e \<and> \<not> notRetried e)
                  \<longrightarrow> outcome r = Inl (ProviderError m q c (Some s)) \<and> calls r = k + 1)"
proof -
  let ?r = "retryLoop p operation random n b 0 None []"
  have cs: "0 < calls ?r \<and> calls ?r \<le> n + 1 \<and>
            slept ?r = [] @ map (sleepFor random b) [0 ..< calls ?r - 1]"
    using retryLoop_calls_slept [of 0 n p operation random b None "[]"] by simp
  have len: "length (slept ?r) = calls ?r - 1"
    using cs by simp
  have bounds: "b * 2 ^ k \<le> slept ?r ! k \<and> slept ?r ! k \<le> 1.1 * (b * 2 ^ k)"
    if "k < length (slept ?r)" for k
  proof -
    have "k < calls ?r - 1" using that len by simp
    then have "slept ?r ! k = sleepFor random b k"
      using cs by simp
    then show ?thesis
      using sleepFor_bounds [of random k b] rnd [of k] base by simp
  qed
  have succ: "outcome ?r = Inr v \<and> calls ?r = k + 1"
    if "k \<le> n" "operation k = Inr v" "\<forall>j < k. \<exists>e. operation j = Inl e \<and> \<not> notRetried e"
    for k v
    using retryLoop_success [of 0 k n operation v p random b None "[]"] that by simp
  have stop: "outcome ?r = Inl (ProviderError m q c (Some s)) \<and> calls ?r = k + 1"
    if "k \<le> n" "operation k = Inl (ProviderError m q c (Some s))"
      "s = 401 \<or> s = 403 \<or> s = 404"
      "\<forall>j < k. \<exists>e. operation j = Inl e \<and> \<not> notRetried e"
    for k m q c s
  proof -
    have "notRetried (ProviderError m q c (Some s))"
      using that(3) by (auto simp add: notRetried_def)
    then show ?thesis
      using retryLoop_not_retried
          [of 0 k n operation "ProviderError m q c (Some s)" p random b None "[]"] that(1,2,4)
      by (simp add: handleError_def)
  qed
  show ?thesis
    unfolding Let_def retryWithBackoff_def option.case
    using cs len bounds succ stop by blast
qed


theorem retryWithBackoff_policy_witness:
  "(let r = retryWithBackoff CLAUDE
              (\<lambda>k. if k = 0 then Inl (OtherError ''500 Internal Server Error'') else Inr (7::nat))
              (\<lambda>k. 1 / 2) (Some 3) (Some 1000)
    in outcome r = Inr 7 \<and> calls r = 2 \<and> length (slept r) = 1 \<and>
       1000 \<le> slept r ! 0 \<and> slept r ! 0 \<le> 1100) \<and>
   (let r = retryWithBackoff CLAUDE
              (\<lambda>k. Inl (ProviderError ''invalid x-api-key'' CLAUDE
                           (Some ''AUTHENTICATION_ERROR'') (Some 401)) :: js_error + nat)
              (\<lambda>k. 1 / 2) (Some 3) (Some 1000)
    in outcome r = Inl (ProviderError ''invalid x-api-key'' CLAUDE
                          (Some ''AUTHENTICATION_ERROR'') (Some 401)) \<and>
       calls r = 1 \<and> slept r = [])"
proof -
  let ?op1 = "\<lambda>k::nat. if k = 0 then Inl (OtherError ''500 Internal Server Error'')
                         else Inr (7::nat)"
  let ?op2 = "\<lambda>k::nat. Inl (ProviderError ''invalid x-api-key'' CLAUDE
                           (Some ''AUTHENTICATION_ERROR'') (Some 401)) :: js_error + nat"
  let ?r1 = "retryWithBackoff CLAUDE ?op1 (\<lambda>k. 1 / 2) (Some 3) (Some 1000)"
  let ?r2 = "retryWithBackoff CLAUDE ?op2 (\<lambda>k. 1 / 2) (Some 3) (Some 1000)"
  have h1: "\<And>k::nat. 0 \<le> (1 / 2 :: real) \<and> (1 / 2 :: real) < 1" by simp
  have h2: "0 \<le> (1000::real)" by simp
  note t1 = retryWithBackoff_policy [of "\<lambda>k. 1 / 2" 1000 CLAUDE ?op1 3, OF h1 h2, unfolded Let_def]
  note t2 = retryWithBackoff_policy [of "\<lambda>k. 1 / 2" 1000 CLAUDE ?op2 3, OF h1 h2, unfolded Let_def]
  note len1 = t1 [THEN conjunct2, THEN conjunct2, THEN conjunct1]
  note bounds1 = t1 [THEN conjunct2, THEN conjunct2, THEN conjunct2, THEN conjunct1, rule_format]
  note succ1 = t1 [THEN conjunct2, THEN conjunct2, THEN conjunct2, THEN conjunct2,
                   THEN conjunct1, rule_format]
  note stop2 = t2 [THEN conjunct2, THEN conjunct2, THEN conjunct2, THEN conjunct2,
                   THEN conjunct2, rule_format]
  have a: "outcome ?r1 = Inr 7 \<and> calls ?r1 = 1 + 1"
    by (rule succ1) (simp add: notRetried_def)
  have b: "length (slept ?r1) = 1"
    using len1 a by simp
  have c: "1000 * 2 ^ 0 \<le> slept ?r1 ! 0 \<and> slept ?r1 ! 0 \<le> 1.1 * (1000 * 2 ^ 0)"
    by (rule bounds1) (simp add: b)
  note len2 = t2 [THEN conjunct2, THEN conjunct2, THEN conjunct1]
  have d: "outcome ?r2 = Inl (ProviderError ''invalid x-api-key'' CLAUDE
                          (Some ''AUTHENTICATION_ERROR'') (Some 401)) \<and>
           calls ?r2 = 0 + 1"
    by (rule stop2) simp
  have e: "slept ?r2 = []"
    using len2 d by simp
  show ?thesis
    unfolding Let_def using a b c d e by simp
qed

section \<open>Properties of the tool registry\<close>

lemma regOk_empty: "regOk emptyRegistry"
  by (simp add: regOk_def emptyRegistry_def)

lemma regOk_registerTool: "regOk reg \<Longrightarrow> regOk (registerTool tool config reg)"
  by (auto simp add: regOk_def registerTool_def Let_def distinct_update update_conv')

lemma regOk_fold:
  "regOk reg \<Longrightarrow> regOk (fold (\<lambda>(tool, config). registerTool tool config) regs reg)"
  by (induction regs arbitrary: reg) (auto simp add: regOk_registerTool)

lemma regOk_registered: "regOk (registered regs)"
  by (simp add: registered_def regOk_fold regOk_empty)

lemma getToolName_setParameters:
  "setParameters ps tool = Inr t \<Longrightarrow> getToolName t = getToolName tool"
  by (auto simp add: setParameters_def getToolName_def split: option.splits list.splits)

lemma getToolName_setDescription:
  "setDescription txt tool = Inr t \<Longrightarrow> getToolName t = getToolName tool"
  by (auto simp add: setDescription_def getToolName_def split: option.splits list.splits)

lemma getToolName_applyProviderConfig:
  assumes "applyProviderConfig tool config = Inr t"
  shows "getToolName t = getToolName tool"
proof -
  obtain m where m: "(case newParameters config of None \<Rightarrow> Inr tool
                      | Some ps \<Rightarrow> setParameters ps tool) = Inr m"
    and t: "(case newDescription config of None \<Rightarrow> Inr m
             | Some txt \<Rightarrow> if txt = [] then Inr m else setDescription txt m) = Inr t"
    using assms by (auto simp add: applyProviderConfig_def split: sum.splits)
  have "getToolName m = getToolName tool"
    using m by (auto split: option.splits dest: getToolName_setParameters)
  moreover have "getToolName t = getToolName m"
    using t by (auto split: option.splits if_splits dest: getToolName_setDescription)
  ultimately show ?thesis by simp
qed

lemma toolsLoop_skip:
  "\<not> passes prov caps config \<Longrightarrow>
   toolsLoop gts prov caps requestedTools ((n, config) # rest) =
   toolsLoop gts prov caps requestedTools rest"
  by (cases "prov \<in> set (supportedProviders config)"; cases "requiresCapability config")
    (simp_all add: passes_def)

declare toolsLoop.simps(2) [simp del]

lemma toolsLoop_cons:
  assumes "toolsLoop gts prov caps requestedTools ((n, config) # rest) = Inr ts"
    and "\<And>m t. map_of gts m = Some t \<Longrightarrow> getToolName t = m"
  shows "toolsLoop gts prov caps requestedTools rest = Inr ts \<or>
         (\<exists>t ts'. ts = t # ts' \<and> getToolName t = n \<and> passes prov caps config \<and>
                  toolsLoop gts prov caps requestedTools rest = Inr ts')"
proof (cases "passes prov caps config")
  case False
  then show ?thesis using assms(1) by (simp add: toolsLoop_skip)
next
  case True
  then have p: "prov \<in> set (supportedProviders config)"
    and c: "\<not> (case requiresCapability config of None \<Rightarrow> False | Some k \<Rightarrow> \<not> capability caps k)"
    by (auto simp add: passes_def split: option.splits)
  show ?thesis
  proof (cases "case requestedTools of None \<Rightarrow> False | Some rs \<Rightarrow> n \<notin> set rs")
    case True
    then show ?thesis using assms(1) p c by (simp add: toolsLoop.simps(2))
  next
    case nreq: False
    show ?thesis
    proof (cases "map_of gts n")
      case None
      then show ?thesis using assms(1) p c nreq by (simp add: toolsLoop.simps(2))
    next
      case (Some tool)
      then have tn: "getToolName tool = n" using assms(2) by simp
      show ?thesis
      proof (cases "case providerSpecificConfig config of None \<Rightarrow> None | Some f \<Rightarrow> f prov")
        case None
        then show ?thesis
          using assms(1) p c nreq \<open>map_of gts n = Some tool\<close> tn True
          by (auto simp add: toolsLoop.simps(2) split: sum.splits)
      next
        case (Some pc)
        note pc = this
        show ?thesis
        proof (cases "applyProviderConfig tool pc")
          case (Inl e)
          then show ?thesis using assms(1) p c nreq \<open>map_of gts n = Some tool\<close> pc
            by (simp add: toolsLoop.simps(2))
        next
          case (Inr mt)
          then have "getToolName mt = n"
            using getToolName_applyProviderConfig tn by blast
          then show ?thesis
            using assms(1) p c nreq \<open>map_of gts n = Some tool\<close> pc Inr True
            by (auto simp add: toolsLoop.simps(2) split: sum.splits)
        qed
      qed
    qed
  qed
qed

lemma toolsLoop_names:
  "toolsLoop gts prov caps requestedTools entries = Inr ts \<Longrightarrow>
   (\<And>m t. map_of gts m = Some t \<Longrightarrow> getToolName t = m) \<Longrightarrow>
   t \<in> set ts \<Longrightarrow>
   \<exists>config. (getToolName t, config) \<in> set entries \<and> passes prov caps config"
proof (induction entries arbitrary: ts)
  case Nil
  then show ?case by simp
next
  case (Cons entry rest)
  obtain n config where entry: "entry = (n, config)" by (cases entry)
  from toolsLoop_cons [OF Cons.prems(1) [unfolded entry] Cons.prems(2)]
  consider "toolsLoop gts prov caps requestedTools rest = Inr ts"
    | t' ts' where "ts = t' # ts'" "getToolName t' = n" "passes prov caps config"
        "toolsLoop gts prov caps requestedTools rest = Inr ts'"
    by blast
  then show ?case
  proof cases
    case 1
    then show ?thesis using Cons.IH [OF 1 Cons.prems(2) Cons.prems(3)] by auto
  next
    case 2
    show ?thesis
    proof (cases "t = t'")
      case True
      then show ?thesis using 2 entry by auto
    next
      case False
      then have "t \<in> set ts'" using Cons.prems(3) 2(1) by simp
      then show ?thesis using Cons.IH [OF 2(4) Cons.prems(2)] by auto
    qed
  qed
qed


text \<open>
  C9. For a tool registered under the name \<open>n\<close> with configuration \<open>config\<close>, the tool
  is reported as supported for a provider and its capabilities iff the provider is in the
  supported providers of \<open>config\<close> and \<open>config\<close> requires no capability or the provider's
  capability under the required key is true. When the required capability is lacking, the
  name appears in \<open>getUnsupportedTools\<close> for every request that lists it, and no tool of
  that name is in a result of \<open>getToolsForProvider\<close>.
\<close>

theorem tool_support_characterisation:
  assumes "map_of (toolConfigs (registered regs)) n = Some config"
  shows "(isToolSupported (registered regs) n prov caps \<longleftrightarrow>
            prov \<in> set (supportedProviders config) \<and>
            (requiresCapability config = None \<or>
             (\<exists>k. requiresCapability config = Some k \<and> capability caps k))) \<and>
         (\<forall>k. requiresCapability config = Some k \<and> \<not> capability caps k \<longrightarrow>
            (\<forall>requested. n \<in> set requested \<longrightarrow>
               n \<in> set (getUnsupportedTools (registered regs) prov caps requested)) \<and>
            (\<forall>requestedTools ts.
               getToolsForProvider (registered regs) prov caps requestedTools = Inr ts
               \<longrightarrow> n \<notin> getToolName ` set ts))"
proof -
  let ?reg = "registered regs"
  have ok: "regOk ?reg" by (rule regOk_registered)
  have iff: "isToolSupported ?reg n prov caps \<longleftrightarrow>
            prov \<in> set (supportedProviders config) \<and>
            (requiresCapability config = None \<or>
             (\<exists>k. requiresCapability config = Some k \<and> capability caps k))"
    using assms by (cases "requiresCapability config") (simp_all add: isToolSupported_def)
  have unsup: "n \<in> set (getUnsupportedTools ?reg prov caps requested)"
    if "requiresCapability config = Some k" "\<not> capability caps k" "n \<in> set requested"
    for k requested
    using that iff by (simp add: getUnsupportedTools_def)
  have excl: "n \<notin> getToolName ` set ts"
    if k: "requiresCapability config = Some k" "\<not> capability caps k"
      and ts: "getToolsForProvider ?reg prov caps requestedTools = Inr ts"
    for k requestedTools ts
  proof
    assume "n \<in> getToolName ` set ts"
    then obtain t where t: "t \<in> set ts" "getToolName t = n" by auto
    have names: "\<And>m u. map_of (globalTools ?reg) m = Some u \<Longrightarrow> getToolName u = m"
      using ok by (simp add: regOk_def)
    obtain config' where c': "(n, config') \<in> set (toolConfigs ?reg)" "passes prov caps config'"
      using toolsLoop_names [OF ts [unfolded getToolsForProvider_def] names t(1)] t(2) by auto
    have "map_of (toolConfigs ?reg) n = Some config'"
      using ok c'(1) by (simp add: regOk_def)
    then have "config' = config" using assms by simp
    then show False using c'(2) k by (simp add: passes_def)
  qed
  show ?thesis
    using iff unsup excl by blast
qed

theorem tool_support_characterisation_witness:
  "let mcp = \<lparr>function_declarations =
               Some [\<lparr>name = Some ''mcp_tool'', description = Some ''mcp_tool tool'',
                      parameters = Some ([] :: (string \<times> unit) list)\<rparr>]\<rparr>;
       config = \<lparr>toolName = ''mcp_tool'', supportedProviders = [GEMINI],
                 requiresCapability = Some Key_supportsTools, providerSpecificConfig = None\<rparr>;
       reg = registered [(mcp, config)];
       caps = \<lparr>supportsStreaming = True, supportsTools = False, supportsImages = False,
               supportsSystemPrompts = True, maxContextLength = 8192, supportedModels = []\<rparr>
   in map_of (toolConfigs reg) ''mcp_tool'' = Some config \<and>
      \<not> isToolSupported reg ''mcp_tool'' GEMINI caps \<and>
      getUnsupportedTools reg GEMINI caps [''mcp_tool''] = [''mcp_tool''] \<and>
      getToolsForProvider reg GEMINI caps None = Inr [] \<and>
      isToolSupported reg ''mcp_tool'' GEMINI (caps\<lparr>supportsTools := True\<rparr>) \<and>
      getToolsForProvider reg GEMINI (caps\<lparr>supportsTools := True\<rparr>) None = Inr [mcp]"
  using tool_support_characterisation
    [of "[(\<lparr>function_declarations =
               Some [\<lparr>name = Some ''mcp_tool'', description = Some ''mcp_tool tool'',
                      parameters = Some ([] :: (string \<times> unit) list)\<rparr>]\<rparr>,
          \<lparr>toolName = ''mcp_tool'', supportedProviders = [GEMINI],
                 requiresCapability = Some Key_supportsTools, providerSpecificConfig = None\<rparr>)]"
        "''mcp_tool''"
        "\<lparr>toolName = ''mcp_tool'', supportedProviders = [GEMINI],
                 requiresCapability = Some Key_supportsTools, providerSpecificConfig = None\<rparr>"
        GEMINI
        "\<lparr>supportsStreaming = True, supportsTools = False, supportsImages = False,
               supportsSystemPrompts = True, maxContextLength = 8192, supportedModels = []\<rparr>"]
  by (simp add: Let_def registered_def registerTool_def emptyRegistry_def getToolName_def
      isToolSupported_def getUnsupportedTools_def getToolsForProvider_def toolsLoop.simps(2))

section \<open>Properties of the agent manager\<close>

lemma length_update:
  "length (AList.update k v al) = (if k \<in> fst ` set al then length al else Suc (length al))"
  by (induction al) auto

lemma registerSession_fields:
  "maxConcurrentSessions (snd (registerSession st aid agent c now rnd)) = maxConcurrentSessions st"
  "agents (snd (registerSession st aid agent c now rnd)) = agents st"
  "providers (snd (registerSession st aid agent c now rnd)) = providers st"
  "length (sessions (snd (registerSession st aid agent c now rnd))) \<le> Suc (length (sessions st))"
  "distinct (map fst (sessions st)) \<Longrightarrow>
   distinct (map fst (sessions (snd (registerSession st aid agent c now rnd))))"
  by (simp_all add: registerSession_def Let_def length_update distinct_update)

lemma startSession_fields:
  "maxConcurrentSessions (snd (startSession st aid now rnd)) = maxConcurrentSessions st"
  "agents (snd (startSession st aid now rnd)) = agents st"
  "providers (snd (startSession st aid now rnd)) = providers st"
  "distinct (map fst (sessions st)) \<Longrightarrow>
   distinct (map fst (sessions (snd (startSession st aid now rnd))))"
  by (simp_all add: startSession_def registerSession_fields split: option.splits)

lemma startSession_length:
  "int (length (sessions st)) \<le> maxConcurrentSessions st \<Longrightarrow>
   int (length (sessions (snd (startSession st aid now rnd)))) \<le> maxConcurrentSessions st"
proof -
  assume le: "int (length (sessions st)) \<le> maxConcurrentSessions st"
  have reg: "int (length (sessions (snd (registerSession st aid agent c now rnd))))
               \<le> maxConcurrentSessions st"
    if "\<not> maxConcurrentSessions st \<le> int (length (sessions st))" for agent c
    using registerSession_fields(4) [of st aid agent c now rnd] that by linarith
  show ?thesis
    using le reg by (simp add: startSession_def split: option.splits)
qed

lemma startSession_ok: "managerOk cap st \<Longrightarrow> managerOk cap (snd (startSession st aid now rnd))"
  using startSession_length [of st aid now rnd]
  by (simp add: managerOk_def startSession_fields)

lemma endSession_fields:
  "maxConcurrentSessions (snd (endSession st sid)) = maxConcurrentSessions st"
  "agents (snd (endSession st sid)) = agents st"
  "providers (snd (endSession st sid)) = providers st"
  "length (sessions (snd (endSession st sid))) \<le> length (sessions st)"
  "distinct (map fst (sessions st)) \<Longrightarrow>
   distinct (map fst (sessions (snd (endSession st sid))))"
  by (simp_all add: endSession_def Let_def length_delete_le distinct_delete split: option.splits)

lemma endSession_ok: "managerOk cap st \<Longrightarrow> managerOk cap (snd (endSession st sid))"
  using endSession_fields(4) [of st sid]
  by (simp add: managerOk_def endSession_fields(1-3,5))

lemma endSessions_ok: "managerOk cap st \<Longrightarrow> managerOk cap (snd (endSessions st sids))"
proof (induction sids arbitrary: st)
  case Nil
  then show ?case by simp
next
  case (Cons sid sids)
  obtain r st' where r: "endSession st sid = (r, st')" by (cases "endSession st sid")
  have ok': "managerOk cap st'" using endSession_ok [OF Cons.prems, of sid] r by simp
  show ?case
  proof (cases r)
    case (Inl e)
    then show ?thesis using r ok' by simp
  next
    case (Inr u)
    then show ?thesis using r Cons.IH [OF ok'] by simp
  qed
qed

lemma removeAgent_ok: "managerOk cap st \<Longrightarrow> managerOk cap (snd (removeAgent st aid))"
proof -
  assume ok: "managerOk cap st"
  obtain r st' where r: "endSessions st (map fst (agentSessions st aid)) = (r, st')"
    by (cases "endSessions st (map fst (agentSessions st aid))")
  have ok': "managerOk cap st'" using endSessions_ok [OF ok, of "map fst (agentSessions st aid)"] r by simp
  show ?thesis
  proof (cases r)
    case (Some e)
    then show ?thesis using r ok' by (simp add: removeAgent_def)
  next
    case None
    then show ?thesis using r ok'
      by (auto simp add: removeAgent_def managerOk_def delete_conv')
  qed
qed

lemma switchToSession_ok: "managerOk cap st \<Longrightarrow> managerOk cap (snd (switchToSession st sid))"
  by (simp add: switchToSession_def managerOk_def split: option.splits)

lemma validateAgentConfig_maxSessions:
  "validateAgentConfig e config = [] \<Longrightarrow> maxSessions config \<noteq> Some 0"
  by (auto simp add: validateAgentConfig_def split: option.splits if_splits)

lemma shutdown_fold_ok:
  "managerOk cap st \<Longrightarrow> managerOk cap (fold (\<lambda>sid s. snd (endSession s sid)) sids st)"
  by (induction sids arbitrary: st) (simp_all add: endSession_ok)

lemma shutdown_ok: "managerOk cap st \<Longrightarrow> managerOk cap (shutdown st)"
  using shutdown_fold_ok [of cap st "map fst (sessions st)"]
  by (simp add: shutdown_def Let_def managerOk_def)

lemma managerOk_other_fields [simp]:
  "managerOk cap (st\<lparr>factoryCache := cache\<rparr>) = managerOk cap st"
  "managerOk cap (st\<lparr>networkCalls := n\<rparr>) = managerOk cap st"
  by (simp_all add: managerOk_def)

lemma managerOk_register:
  "managerOk cap st \<Longrightarrow> maxSessions config \<noteq> Some 0 \<Longrightarrow>
   managerOk cap (st\<lparr>agents := AList.update aid config (agents st),
                 providers := AList.update aid c (providers st)\<rparr>)"
  by (simp add: managerOk_def update_conv')

lemma createAgent_ok: "managerOk cap st \<Longrightarrow> managerOk cap (snd (createAgent w st config now rnd))"
proof -
  assume ok: "managerOk cap st"
  show ?thesis
  proof (cases "validateAgentConfig (processEnv w) config = []")
    case False
    then show ?thesis using ok by (simp add: createAgent_def)
  next
    case True
    note valid = this
    have ms: "maxSessions config \<noteq> Some 0"
      using validateAgentConfig_maxSessions [OF valid] .
    show ?thesis
    proof (cases "map_of (agents st) (agentId config)")
      case (Some a)
      then show ?thesis using ok valid by (simp add: createAgent_def)
    next
      case None
      obtain r cache where cc:
        "createClient (processEnv w) (factoryCache st) (providerConfig config) = (r, cache)"
        by (cases "createClient (processEnv w) (factoryCache st) (providerConfig config)")
      show ?thesis
      proof (cases r)
        case (Inl e)
        then show ?thesis using ok valid None cc by (simp add: createAgent_def)
      next
        case (Inr c)
        obtain isValid n1 where vc: "validateConfig w c = (isValid, n1)"
          by (cases "validateConfig w c")
        obtain canConnect n2 where tc: "testConnection w c = (canConnect, n2)"
          by (cases "testConnection w c")
        let ?st2 = "st\<lparr>factoryCache := cache, networkCalls := networkCalls st + n1 + n2\<rparr>"
        let ?st3 = "?st2\<lparr>agents := AList.update (agentId config) config (agents ?st2),
                          providers := AList.update (agentId config) c (providers ?st2)\<rparr>"
        have ok3: "managerOk cap ?st3"
          using managerOk_register [of cap ?st2 config "agentId config" c] ok ms by simp
        show ?thesis
        proof (cases "isValid \<and> canConnect")
          case False
          then show ?thesis using ok valid None cc Inr vc tc
            by (auto simp add: createAgent_def Let_def)
        next
          case True
          show ?thesis
          proof (cases "autoStart config = Some True")
            case False
            have "snd (createAgent w st config now rnd) = ?st3"
              using valid None cc Inr vc tc True False
              by (simp add: createAgent_def Let_def)
            then show ?thesis using ok3 by simp
          next
            case auto: True
            have "snd (createAgent w st config now rnd) =
                  snd (startSession ?st3 (agentId config) now rnd)"
              using valid None cc Inr vc tc True auto
              by (simp add: createAgent_def Let_def split: prod.splits sum.splits)
            then show ?thesis using startSession_ok [OF ok3] by simp
          qed
        qed
      qed
    qed
  qed
qed

lemma managerOk_update_agent:
  "managerOk cap st \<Longrightarrow> maxSessions config \<noteq> Some 0 \<Longrightarrow> map_of (agents st) aid = Some old \<Longrightarrow>
   managerOk cap (st\<lparr>agents := AList.update aid config (agents st)\<rparr>)"
  by (simp add: managerOk_def update_conv')

lemma updateAgent_ok: "managerOk cap st \<Longrightarrow> managerOk cap (snd (updateAgent w st aid updates))"
proof -
  assume ok: "managerOk cap st"
  show ?thesis
  proof (cases "map_of (agents st) aid")
    case None
    then show ?thesis using ok by (simp add: updateAgent_def)
  next
    case (Some existingAgent)
    let ?u = "applyUpdates existingAgent updates"
    show ?thesis
    proof (cases "validateAgentConfig (processEnv w) ?u = []")
      case False
      then show ?thesis using ok Some by (simp add: updateAgent_def Let_def)
    next
      case True
      note valid = this
      have ms: "maxSessions ?u \<noteq> Some 0"
        using validateAgentConfig_maxSessions [OF valid] .
      show ?thesis
      proof (cases "newProviderConfig updates")
        case None
        then show ?thesis
          using ok Some valid managerOk_update_agent [OF ok ms Some]
          by (simp add: updateAgent_def Let_def)
      next
        case (Some pc)
        note pc = this
        obtain r cache where cc:
          "createClient (processEnv w) (factoryCache st) (providerConfig ?u) = (r, cache)"
          by (cases "createClient (processEnv w) (factoryCache st) (providerConfig ?u)")
        show ?thesis
        proof (cases r)
          case (Inl e)
          then show ?thesis using ok \<open>map_of (agents st) aid = Some existingAgent\<close> valid pc cc
            by (simp add: updateAgent_def Let_def)
        next
          case (Inr c)
          obtain isValid n1 where vc: "validateConfig w c = (isValid, n1)"
            by (cases "validateConfig w c")
          let ?st1 = "st\<lparr>factoryCache := cache, networkCalls := networkCalls st + n1\<rparr>"
          show ?thesis
          proof (cases isValid)
            case False
            then show ?thesis
              using ok \<open>map_of (agents st) aid = Some existingAgent\<close> valid pc cc Inr vc
              by (simp add: updateAgent_def Let_def)
          next
            case True
            have "snd (updateAgent w st aid updates) =
                  ?st1\<lparr>providers := AList.update aid c (providers ?st1),
                        agents := AList.update aid ?u (agents ?st1)\<rparr>"
              using \<open>map_of (agents st) aid = Some existingAgent\<close> valid pc cc Inr vc True
              by (simp add: updateAgent_def Let_def)
            moreover have "managerOk cap (?st1\<lparr>providers := AList.update aid c (providers ?st1),
                        agents := AList.update aid ?u (agents ?st1)\<rparr>)"
              using ok ms by (simp add: managerOk_def update_conv')
            ultimately show ?thesis by simp
          qed
        qed
      qed
    qed
  qed
qed

lemma createQuickSession_ok:
  "managerOk cap st \<Longrightarrow> managerOk cap (snd (createQuickSession w st p mdl nm now now1 rnd1 now2 rnd2))"
proof -
  assume ok: "managerOk cap st"
  obtain r st' where r: "createAgent w st (quickAgentConfig p mdl nm now) now1 rnd1 = (r, st')"
    by (cases "createAgent w st (quickAgentConfig p mdl nm now) now1 rnd1")
  have ok': "managerOk cap st'"
    using createAgent_ok [OF ok, of w "quickAgentConfig p mdl nm now" now1 rnd1] r by simp
  show ?thesis
    using r ok' startSession_ok [OF ok', of "quickAgentId p now" now2 rnd2]
    by (cases r) (simp_all add: createQuickSession_def)
qed

lemma step_ok: "managerOk cap st \<Longrightarrow> managerOk cap (step st operation)"
  by (cases operation)
    (simp_all add: createAgent_ok removeAgent_ok startSession_ok endSession_ok
      switchToSession_ok updateAgent_ok shutdown_ok createQuickSession_ok)

lemma run_ok: "managerOk cap st \<Longrightarrow> managerOk cap (run st ops)"
  unfolding run_def by (induction ops arbitrary: st) (simp_all add: step_ok)

lemma newManager_ok: "0 \<le> cap \<Longrightarrow> managerOk cap (newManager cap)"
  by (simp add: managerOk_def newManager_def)

lemma startSession_global_cap:
  "map_of (agents st) aid = Some agent \<Longrightarrow> map_of (providers st) aid = Some c \<Longrightarrow>
   maxConcurrentSessions st \<le> int (length (sessions st)) \<Longrightarrow>
   startSession st aid now rnd =
     (Inl (MaxConcurrentSessionsReached (maxConcurrentSessions st)), st)"
  by (simp add: startSession_def)

lemma startSession_agent_cap:
  "map_of (agents st) aid = Some agent \<Longrightarrow> map_of (providers st) aid = Some c \<Longrightarrow>
   \<not> maxConcurrentSessions st \<le> int (length (sessions st)) \<Longrightarrow>
   maxSessions agent = Some k \<Longrightarrow> k \<noteq> 0 \<Longrightarrow> k \<le> int (length (agentSessions st aid)) \<Longrightarrow>
   startSession st aid now rnd = (Inl (MaxAgentSessionsReached aid k), st)"
  by (simp add: startSession_def)

text \<open>
  C1. For a manager constructed with a cap of at least 0 and every sequence of its
  operations, the number of registered sessions (the length of the list of sessions, whose
  ids are distinct) is at most the cap; and in the state reached, \<open>startSession\<close> for a
  registered agent, called when the number of sessions has reached the cap or when the
  number of sessions of the agent has reached the agent's \<open>maxSessions\<close>, rejects with a
  concurrency-limit error and leaves the state as it is.
\<close>

theorem session_caps_enforced:
  assumes "0 \<le> cap"
  shows "let st = run (newManager cap) ops in
           int (length (sessions st)) \<le> cap \<and> distinct (map fst (sessions st)) \<and>
           (\<forall>aid agent now rnd.
              map_of (agents st) aid = Some agent \<and>
              (cap \<le> int (length (sessions st)) \<or>
               (\<exists>k. maxSessions agent = Some k \<and> k \<le> int (length (agentSessions st aid))))
              \<longrightarrow> (\<exists>e. startSession st aid now rnd = (Inl e, st) \<and> concurrencyLimit e))"
proof -
  let ?st = "run (newManager cap) ops"
  have ok: "managerOk cap ?st"
    using run_ok [OF newManager_ok [OF assms]] .
  have cap: "maxConcurrentSessions ?st = cap"
    and len: "int (length (sessions ?st)) \<le> cap"
    and dist: "distinct (map fst (sessions ?st))"
    using ok by (simp_all add: managerOk_def)
  have rej: "\<exists>e. startSession ?st aid now rnd = (Inl e, ?st) \<and> concurrencyLimit e"
    if ag: "map_of (agents ?st) aid = Some agent"
      and full: "cap \<le> int (length (sessions ?st)) \<or>
                 (\<exists>k. maxSessions agent = Some k \<and> k \<le> int (length (agentSessions ?st aid)))"
    for aid agent now rnd
  proof -
    obtain c where c: "map_of (providers ?st) aid = Some c"
      using ok ag by (auto simp add: managerOk_def)
    have nz: "maxSessions agent \<noteq> Some 0"
      using ok ag by (auto simp add: managerOk_def)
    show ?thesis
    proof (cases "cap \<le> int (length (sessions ?st))")
      case True
      then show ?thesis
        using startSession_global_cap [OF ag c, of now rnd] cap by simp
    next
      case False
      then obtain k where k: "maxSessions agent = Some k"
        "k \<le> int (length (agentSessions ?st aid))"
        using full by blast
      have "k \<noteq> 0" using nz k(1) by auto
      then show ?thesis
        using startSession_agent_cap [OF ag c _ k(1) _ k(2), of now rnd] False cap by simp
    qed
  qed
  show ?thesis
    unfolding Let_def using len dist rej by blast
qed

lemma demo_valid: "validateAgentConfig (processEnv demoWorld) demoAgent = []"
  by (simp add: demoWorld_def demoAgent_def validateAgentConfig_def validateProviderConfig_def
      providerSpecificErrors_def falsy_def)

lemma demo_create:
  "createAgent demoWorld (newManager 1) demoAgent ''1'' ''x'' =
     (Inr ''A'', (newManager 1)\<lparr>
        agents := [(''A'', demoAgent)],
        providers := [(''A'', \<lparr>clientProvider = GEMINI, clientConfig = providerConfig demoAgent,
                              clientApiKey = [], clientEndpoint = []\<rparr>)],
        factoryCache := [(''gemini|gemini-1.5-pro|gemini-api-key|no-key|default-endpoint'',
                          \<lparr>clientProvider = GEMINI, clientConfig = providerConfig demoAgent,
                              clientApiKey = [], clientEndpoint = []\<rparr>)],
        networkCalls := 1\<rparr>)"
  unfolding createAgent_def Let_def demo_valid
  by (simp add: demoWorld_def demoAgent_def newManager_def createClient_def createCacheKey_def
      newClient_def orDefault_def validateConfig_def testConnection_def)

theorem session_caps_enforced_witness:
  "let st = run (newManager 1)
              [CreateAgent demoWorld demoAgent ''1'' ''x'', StartSession ''A'' ''2'' ''y'']
   in (0::int) \<le> 1 \<and> map_of (agents st) ''A'' = Some demoAgent \<and>
      1 \<le> int (length (sessions st)) \<and> int (length (sessions st)) \<le> 1 \<and>
      (\<exists>e. startSession st ''A'' ''3'' ''z'' = (Inl e, st) \<and> concurrencyLimit e)"
proof -
  let ?ops = "[CreateAgent demoWorld demoAgent ''1'' ''x'', StartSession ''A'' ''2'' ''y'']"
  let ?st = "run (newManager 1) ?ops"
  have ag: "map_of (agents ?st) ''A'' = Some demoAgent"
    by (simp only: run_def foldl.simps step.simps demo_create snd_conv startSession_fields)
      (simp add: newManager_def)
  have len: "length (sessions ?st) = 1"
    by (simp only: run_def foldl.simps step.simps demo_create snd_conv)
      (simp add: startSession_def registerSession_def demoAgent_def newManager_def
        agentSessions_def Let_def)
  have pos: "(0::int) \<le> 1" by simp
  note t = session_caps_enforced [OF pos, of ?ops, unfolded Let_def]
  have bound: "int (length (sessions ?st)) \<le> 1"
    using t by (rule conjunct1)
  have rej: "\<exists>e. startSession ?st ''A'' ''3'' ''z'' = (Inl e, ?st) \<and> concurrencyLimit e"
    using t [THEN conjunct2, THEN conjunct2, rule_format, of "''A''" demoAgent "''3''" "''z''"]
      ag len by simp
  show ?thesis
    unfolding Let_def using pos ag len bound rej by simp
qed

lemma update_fresh: "k \<notin> fst ` set al \<Longrightarrow> AList.update k v al = al @ [(k, v)]"
  by (induction al) auto

lemma registerSession_result:
  "registerSession st aid agent c now rnd = (r, st') \<Longrightarrow>
   r = Inr (aid @ ''-'' @ now @ ''-'' @ rnd) \<and>
   (\<exists>session. sessions st' = AList.update (aid @ ''-'' @ now @ ''-'' @ rnd) session (sessions st)) \<and>
   agents st' = agents st"
  by (auto simp add: registerSession_def Let_def)

lemma startSession_success:
  assumes "startSession st aid now rnd = (Inr sid, st')"
  shows "sid = aid @ ''-'' @ now @ ''-'' @ rnd \<and>
         (\<exists>session. sessions st' = AList.update sid session (sessions st)) \<and>
         agents st' = agents st"
proof -
  obtain agent c where "registerSession st aid agent c now rnd = (Inr sid, st')"
    using assms by (auto simp add: startSession_def split: option.splits if_splits)
  then show ?thesis using registerSession_result by blast
qed

lemma createAgent_autoStart_success:
  assumes "createAgent w st config now rnd = (Inr aid, st')"
    and "autoStart config = Some True"
  shows "\<exists>st3 sid. sessions st3 = sessions st \<and>
           map_of (agents st3) (agentId config) = Some config \<and>
           startSession st3 (agentId config) now rnd = (Inr sid, st')"
proof -
  have valid: "validateAgentConfig (processEnv w) config = []"
    using assms(1) by (auto simp add: createAgent_def Let_def split: if_splits)
  have fresh: "map_of (agents st) (agentId config) = None"
    using assms(1) valid by (auto simp add: createAgent_def Let_def split: if_splits)
  obtain r cache where cc:
    "createClient (processEnv w) (factoryCache st) (providerConfig config) = (r, cache)"
    by (cases "createClient (processEnv w) (factoryCache st) (providerConfig config)")
  obtain c where c: "r = Inr c"
    using assms(1) valid fresh cc by (cases r) (auto simp add: createAgent_def Let_def)
  obtain isValid n1 where vc: "validateConfig w c = (isValid, n1)"
    by (cases "validateConfig w c")
  obtain canConnect n2 where tc: "testConnection w c = (canConnect, n2)"
    by (cases "testConnection w c")
  have isValid: isValid
    using assms(1) valid fresh cc c vc by (cases isValid) (auto simp add: createAgent_def Let_def)
  have canConnect: canConnect
    using assms(1) valid fresh cc c vc tc isValid
    by (cases canConnect) (auto simp add: createAgent_def Let_def)
  let ?st2 = "st\<lparr>factoryCache := cache, networkCalls := networkCalls st + n1 + n2\<rparr>"
  let ?st3 = "?st2\<lparr>agents := AList.update (agentId config) config (agents ?st2),
                    providers := AList.update (agentId config) c (providers ?st2)\<rparr>"
  have "\<exists>sid. startSession ?st3 (agentId config) now rnd = (Inr sid, st')"
    using assms valid fresh cc c vc tc isValid canConnect
    by (auto simp add: createAgent_def Let_def split: prod.splits sum.splits)
  moreover have "sessions ?st3 = sessions st" by simp
  moreover have "map_of (agents ?st3) (agentId config) = Some config"
    by (simp add: update_conv')
  ultimately show ?thesis by blast
qed

lemma agentSessions_fresh:
  "sessions st' = AList.update sid session (sessions st) \<Longrightarrow> sid \<notin> fst ` set (sessions st) \<Longrightarrow>
   prefix aid sid \<Longrightarrow>
   length (sessions st') = length (sessions st) + 1 \<and>
   length (agentSessions st' aid) = length (agentSessions st aid) + 1"
  by (simp add: update_fresh agentSessions_def)

text \<open>
  C10. \<open>createQuickSession\<close> makes up an agent with \<open>autoStart = true\<close>. Whenever it
  succeeds, \<open>createAgent\<close> has started one session for that agent and \<open>createQuickSession\<close>
  a second one: the sessions afterwards are the sessions before with the two new ids set,
  both ids start with the id of the new agent, and the id returned is the second. When
  the two ids differ and are not ids of earlier sessions, the number of sessions, and the
  number of sessions of the new agent, have grown by two.
\<close>

theorem createQuickSession_registers_two_sessions:
  fixes st :: "'j AgentManager"
  assumes "createQuickSession w st p mdl nm now now1 rnd1 now2 rnd2 = (Inr sid, st')"
  shows "let aid = quickAgentId p now;
             sid1 = aid @ ''-'' @ now1 @ ''-'' @ rnd1;
             sid2 = aid @ ''-'' @ now2 @ ''-'' @ rnd2
         in autoStart (quickAgentConfig p mdl nm now :: 'j AgentConfig) = Some True \<and>
            sid = sid2 \<and> prefix aid sid1 \<and> prefix aid sid2 \<and>
            map_of (agents st') aid = Some (quickAgentConfig p mdl nm now) \<and>
            (\<exists>s1 s2. sessions st' = AList.update sid2 s2 (AList.update sid1 s1 (sessions st))) \<and>
            (sid1 \<noteq> sid2 \<and> sid1 \<notin> fst ` set (sessions st) \<and> sid2 \<notin> fst ` set (sessions st)
             \<longrightarrow> length (sessions st') = length (sessions st) + 2 \<and>
                 length (agentSessions st' aid) = length (agentSessions st aid) + 2)"
proof -
  let ?config = "quickAgentConfig p mdl nm now :: 'j AgentConfig"
  let ?aid = "quickAgentId p now"
  let ?sid1 = "?aid @ ''-'' @ now1 @ ''-'' @ rnd1"
  let ?sid2 = "?aid @ ''-'' @ now2 @ ''-'' @ rnd2"
  have auto: "autoStart ?config = Some True" and aid: "agentId ?config = ?aid"
    by (simp_all add: quickAgentConfig_def)
  obtain r st1 where r: "createAgent w st ?config now1 rnd1 = (r, st1)"
    by (cases "createAgent w st ?config now1 rnd1")
  obtain a where a: "r = Inr a"
    using assms r by (cases r) (simp_all add: createQuickSession_def)
  have second: "startSession st1 ?aid now2 rnd2 = (Inr sid, st')"
    using assms r a by (simp add: createQuickSession_def)
  obtain st3 s where st3: "sessions st3 = sessions st"
    "map_of (agents st3) ?aid = Some ?config"
    and first: "startSession st3 ?aid now1 rnd1 = (Inr s, st1)"
    using createAgent_autoStart_success [OF r [unfolded a] auto] aid by auto
  obtain s1 where s1: "s = ?sid1" "sessions st1 = AList.update ?sid1 s1 (sessions st)"
    "agents st1 = agents st3"
    using startSession_success [OF first] st3(1) by auto
  obtain s2 where s2: "sid = ?sid2" "sessions st' = AList.update ?sid2 s2 (sessions st1)"
    "agents st' = agents st1"
    using startSession_success [OF second] by auto
  have both: "sessions st' = AList.update ?sid2 s2 (AList.update ?sid1 s1 (sessions st))"
    using s1(2) s2(2) by simp
  have count: "length (sessions st') = length (sessions st) + 2 \<and>
               length (agentSessions st' ?aid) = length (agentSessions st ?aid) + 2"
    if "?sid1 \<noteq> ?sid2" "?sid1 \<notin> fst ` set (sessions st)" "?sid2 \<notin> fst ` set (sessions st)"
  proof -
    have one: "length (sessions st1) = length (sessions st) + 1 \<and>
               length (agentSessions st1 ?aid) = length (agentSessions st ?aid) + 1"
      using agentSessions_fresh [OF s1(2) that(2), of ?aid] by simp
    have "?sid2 \<notin> fst ` set (sessions st1)"
      using that(1,3) s1(2) by (simp add: dom_update)
    then have "length (sessions st') = length (sessions st1) + 1 \<and>
               length (agentSessions st' ?aid) = length (agentSessions st1 ?aid) + 1"
      using agentSessions_fresh [OF s2(2), of ?aid] by simp
    then show ?thesis using one by simp
  qed
  have ag: "map_of (agents st') ?aid = Some ?config"
    using s2(3) s1(3) st3(2) by simp
  show ?thesis
    unfolding Let_def using auto s2(1) ag both count by auto
qed

lemma quick_valid:
  "validateAgentConfig (processEnv demoWorld) (quickAgentConfig GEMINI None None ''17'') = []"
  by (simp add: demoWorld_def quickAgentConfig_def quickAgentId_def validateAgentConfig_def
      validateProviderConfig_def providerSpecificErrors_def falsy_def orDefault_def)

lemma quick_result:
  "fst (createQuickSession demoWorld (newManager 5 :: unit AgentManager) GEMINI None None
          ''17'' ''18'' ''a'' ''19'' ''b'') = Inr ''quick-gemini-17-19-b''"
  unfolding createQuickSession_def createAgent_def Let_def quick_valid
  by (simp add: demoWorld_def quickAgentConfig_def quickAgentId_def newManager_def
      createClient_def createCacheKey_def newClient_def orDefault_def validateConfig_def
      testConnection_def startSession_def registerSession_def agentSessions_def falsy_def
      Let_def)

theorem createQuickSession_registers_two_sessions_witness:
  "let st = (newManager 5 :: unit AgentManager);
       r = createQuickSession demoWorld st GEMINI None None ''17'' ''18'' ''a'' ''19'' ''b''
   in fst r = Inr ''quick-gemini-17-19-b'' \<and>
      length (sessions (snd r)) = 2 \<and>
      length (agentSessions (snd r) ''quick-gemini-17'') = 2"
proof -
  let ?st = "newManager 5 :: unit AgentManager"
  let ?r = "createQuickSession demoWorld ?st GEMINI None None ''17'' ''18'' ''a'' ''19'' ''b''"
  have eq: "?r = (Inr ''quick-gemini-17-19-b'', snd ?r)"
    using quick_result by (metis prod.collapse)
  note t = createQuickSession_registers_two_sessions [OF eq, unfolded Let_def]
  have "length (sessions (snd ?r)) = length (sessions ?st) + 2 \<and>
        length (agentSessions (snd ?r) (quickAgentId GEMINI ''17''))
          = length (agentSessions ?st (quickAgentId GEMINI ''17'')) + 2"
    by (rule t [THEN conjunct2, THEN conjunct2, THEN conjunct2, THEN conjunct2,
                THEN conjunct2, THEN conjunct2, rule_format])
       (simp add: newManager_def quickAgentId_def)
  then show ?thesis
    unfolding Let_def using quick_result
    by (simp add: newManager_def quickAgentId_def agentSessions_def)
qed

lemma claude_valid:
  "validateAgentConfig (processEnv demoWorld) (demoClaudeAgent aid on) =
     (if aid = [] then [''Agent ID is required''] else [])"
  by (simp add: demoWorld_def demoClaudeAgent_def validateAgentConfig_def
      validateProviderConfig_def providerSpecificErrors_def falsy_def)

lemma claude_first:
  "createAgent demoWorld (newManager 5) (demoClaudeAgent ''A'' True) ''1'' ''x'' =
     (Inr ''A'',
      (newManager 5 :: unit AgentManager)\<lparr>
        agents := [(''A'', demoClaudeAgent ''A'' True)],
        providers := [(''A'', \<lparr>clientProvider = CLAUDE,
                              clientConfig = providerConfig (demoClaudeAgent ''A'' True),
                              clientApiKey = ''sk-1'',
                              clientEndpoint = ''https://api.anthropic.com/v1/messages''\<rparr>)],
        factoryCache := [(createCacheKey (providerConfig (demoClaudeAgent ''A'' True)),
                          \<lparr>clientProvider = CLAUDE,
                              clientConfig = providerConfig (demoClaudeAgent ''A'' True),
                              clientApiKey = ''sk-1'',
                              clientEndpoint = ''https://api.anthropic.com/v1/messages''\<rparr>)],
        networkCalls := 1\<rparr>)"
  unfolding createAgent_def Let_def claude_valid
  by (simp add: demoWorld_def demoClaudeAgent_def newManager_def createClient_def
      createCacheKey_def newClient_def orDefault_def orElse_def falsy_def validateConfig_def
      testConnection_def Let_def)

lemma cacheKey_ignores_enabled:
  "createCacheKey (config\<lparr>enabled := on\<rparr>) = createCacheKey config"
  by (simp add: createCacheKey_def)

text \<open>
  C8. The claim is that a disabled provider configuration makes the construction of the
  adapter fail and makes \<open>createAgent\<close> reject before any request is sent. The
  constructor does fail, and so does \<open>createAgent\<close> on a manager whose factory has nothing
  cached. The cache key of the factory leaves \<open>enabled\<close> out, however: after an agent
  with the enabled configuration has been created, \<open>createAgent\<close> with the same
  configuration disabled is handed the cached client, sends the request of
  \<open>testConnection\<close>, registers the agent and returns its id.
\<close>

theorem disabled_config_served_from_cache:
  "newClient e p (config\<lparr>enabled := False\<rparr>) = Inl (disabledError (config\<lparr>enabled := False\<rparr>)) \<and>
   createAgent demoWorld (newManager 5 :: unit AgentManager) (demoClaudeAgent ''B'' False)
       ''2'' ''y''
     = (Inl (ClientError (disabledError (providerConfig (demoClaudeAgent ''B'' False)))),
        newManager 5) \<and>
   (let st = snd (createAgent demoWorld (newManager 5 :: unit AgentManager)
                    (demoClaudeAgent ''A'' True) ''1'' ''x'');
        r = createAgent demoWorld st (demoClaudeAgent ''B'' False) ''2'' ''y''
    in enabled (providerConfig (demoClaudeAgent ''B'' False)) = False \<and>
       fst r = Inr ''B'' \<and>
       map_of (agents (snd r)) ''B'' = Some (demoClaudeAgent ''B'' False) \<and>
       networkCalls (snd r) = networkCalls st + 1)"
proof -
  have a: "newClient e p (config\<lparr>enabled := False\<rparr>) = Inl (disabledError (config\<lparr>enabled := False\<rparr>))"
    by (simp add: newClient_def)
  have b: "createAgent demoWorld (newManager 5 :: unit AgentManager) (demoClaudeAgent ''B'' False)
       ''2'' ''y''
     = (Inl (ClientError (disabledError (providerConfig (demoClaudeAgent ''B'' False)))),
        newManager 5)"
    unfolding createAgent_def Let_def claude_valid
    by (simp add: newManager_def createClient_def newClient_def demoClaudeAgent_def
        demoWorld_def)
  have key: "createCacheKey (providerConfig (demoClaudeAgent ''B'' False)) =
             createCacheKey (providerConfig (demoClaudeAgent ''A'' True))"
    by (simp add: createCacheKey_def demoClaudeAgent_def)
  have c: "let st = snd (createAgent demoWorld (newManager 5 :: unit AgentManager)
                    (demoClaudeAgent ''A'' True) ''1'' ''x'');
        r = createAgent demoWorld st (demoClaudeAgent ''B'' False) ''2'' ''y''
    in enabled (providerConfig (demoClaudeAgent ''B'' False)) = False \<and>
       fst r = Inr ''B'' \<and>
       map_of (agents (snd r)) ''B'' = Some (demoClaudeAgent ''B'' False) \<and>
       networkCalls (snd r) = networkCalls st + 1"
    unfolding Let_def claude_first snd_conv
    unfolding createAgent_def Let_def claude_valid createClient_def key
    by (simp add: newManager_def validateConfig_def testConnection_def demoWorld_def
        demoClaudeAgent_def)
  show ?thesis using a b c by simp
qed

end
